theory Spec2Isabelle
  imports Main "HOL-Library.Monad_Syntax"
begin

section \<open>Characters, pieces and the game state\<close>

text \<open>
  The engine (\<^verbatim>\<open>src/chess_ubuntu.c\<close>) stores a piece as a \<^verbatim>\<open>char\<close>: upper case for
  White, lower case for Black, a blank for an empty square. The \<^verbatim>\<open>ctype.h\<close> predicates
  are modelled on the ASCII range, which is the only range the engine stores.
\<close>

abbreviation EMPTY :: char where "EMPTY \<equiv> CHR '' ''"
abbreviation WHITE_PAWN :: char where "WHITE_PAWN \<equiv> CHR ''P''"
abbreviation WHITE_ROOK :: char where "WHITE_ROOK \<equiv> CHR ''R''"
abbreviation WHITE_KNIGHT :: char where "WHITE_KNIGHT \<equiv> CHR ''N''"
abbreviation WHITE_BISHOP :: char where "WHITE_BISHOP \<equiv> CHR ''B''"
abbreviation WHITE_QUEEN :: char where "WHITE_QUEEN \<equiv> CHR ''Q''"
abbreviation WHITE_KING :: char where "WHITE_KING \<equiv> CHR ''K''"
abbreviation BLACK_PAWN :: char where "BLACK_PAWN \<equiv> CHR ''p''"
abbreviation BLACK_ROOK :: char where "BLACK_ROOK \<equiv> CHR ''r''"
abbreviation BLACK_KNIGHT :: char where "BLACK_KNIGHT \<equiv> CHR ''n''"
abbreviation BLACK_BISHOP :: char where "BLACK_BISHOP \<equiv> CHR ''b''"
abbreviation BLACK_QUEEN :: char where "BLACK_QUEEN \<equiv> CHR ''q''"
abbreviation BLACK_KING :: char where "BLACK_KING \<equiv> CHR ''k''"

definition isupper :: "char \<Rightarrow> bool" where
  "isupper c = (65 \<le> (of_char c :: nat) \<and> (of_char c :: nat) \<le> 90)"

definition islower :: "char \<Rightarrow> bool" where
  "islower c = (97 \<le> (of_char c :: nat) \<and> (of_char c :: nat) \<le> 122)"

definition isdigit :: "char \<Rightarrow> bool" where
  "isdigit c = (48 \<le> (of_char c :: nat) \<and> (of_char c :: nat) \<le> 57)"

definition toupper :: "char \<Rightarrow> char" where
  "toupper c = (if islower c then char_of ((of_char c :: nat) - 32) else c)"

definition tolower :: "char \<Rightarrow> char" where
  "tolower c = (if isupper c then char_of ((of_char c :: nat) + 32) else c)"

text \<open>
  \<^verbatim>\<open>GameState\<close>, field by field. The 8x8 \<^verbatim>\<open>char\<close> array is a function on (row, column)
  index pairs; every access of the modelled code is guarded to rows and columns 0..7.
  C \<^verbatim>\<open>int\<close> fields are \<open>int\<close>: coordinates and clocks stay far from the 32-bit limits.
\<close>

record GameState =
  whiteCastleKingside :: bool
  whiteCastleQueenside :: bool
  blackCastleKingside :: bool
  blackCastleQueenside :: bool
  enPassantTargetRow :: int
  enPassantTargetCol :: int
  halfmoveClock :: int
  fullmoveNumber :: int
  board :: "int \<times> int \<Rightarrow> char"
  isWhiteTurn :: bool
  canWhiteCastleKingside :: bool
  canWhiteCastleQueenside :: bool
  canBlackCastleKingside :: bool
  canBlackCastleQueenside :: bool

text \<open>The assignment \<^verbatim>\<open>state->board[row][col] = piece\<close>.\<close>

definition setSquare :: "GameState \<Rightarrow> int \<Rightarrow> int \<Rightarrow> char \<Rightarrow> GameState" where
  "setSquare state row col piece = state\<lparr>board := (board state)((row, col) := piece)\<rparr>"

text \<open>The index pairs of \<^verbatim>\<open>for (i = 0; i < 8; i++) for (j = 0; j < 8; j++)\<close>, in order.\<close>

definition squares :: "(int \<times> int) list" where
  "squares = concat (map (\<lambda>i. map (\<lambda>j. (i, j)) [0..7]) [0..7])"

text \<open>\<^verbatim>\<open>initializeGameState\<close>: every field is assigned, so the result is one fixed state.\<close>

definition initializeGameState :: GameState where
  "initializeGameState =
     foldl (\<lambda>state (sq, piece). setSquare state (fst sq) (snd sq) piece)
       \<lparr> whiteCastleKingside = True, whiteCastleQueenside = True,
         blackCastleKingside = True, blackCastleQueenside = True,
         enPassantTargetRow = -1, enPassantTargetCol = -1,
         halfmoveClock = 0, fullmoveNumber = 1,
         board = (\<lambda>_. EMPTY), isWhiteTurn = True,
         canWhiteCastleKingside = True, canWhiteCastleQueenside = True,
         canBlackCastleKingside = True, canBlackCastleQueenside = True \<rparr>
       ([((7, 0), WHITE_ROOK), ((7, 7), WHITE_ROOK), ((7, 1), WHITE_KNIGHT),
         ((7, 6), WHITE_KNIGHT), ((7, 2), WHITE_BISHOP), ((7, 5), WHITE_BISHOP),
         ((7, 3), WHITE_QUEEN), ((7, 4), WHITE_KING)]
        @ map (\<lambda>j. ((6, j), WHITE_PAWN)) [0..7]
        @ [((0, 0), BLACK_ROOK), ((0, 7), BLACK_ROOK), ((0, 1), BLACK_KNIGHT),
           ((0, 6), BLACK_KNIGHT), ((0, 2), BLACK_BISHOP), ((0, 5), BLACK_BISHOP),
           ((0, 3), BLACK_QUEEN), ((0, 4), BLACK_KING)]
        @ map (\<lambda>j. ((1, j), BLACK_PAWN)) [0..7])"

section \<open>The interchange text (FEN)\<close>

text \<open>
  \<^verbatim>\<open>gameStateToFEN\<close> writes characters through \<^verbatim>\<open>fenPtr\<close> one after the other; the model
  returns them as a list. \<^verbatim>\<open>'0' + emptyCount\<close> is \<open>char_of (48 + emptyCount)\<close>.
\<close>

fun fenRank :: "(int \<times> int \<Rightarrow> char) \<Rightarrow> int \<Rightarrow> int list \<Rightarrow> int \<Rightarrow> string" where
  "fenRank b rank [] emptyCount =
     (if emptyCount > 0 then [char_of (48 + emptyCount)] else [])"
| "fenRank b rank (file # files) emptyCount =
     (let piece = b (rank, file) in
      if piece = EMPTY then fenRank b rank files (emptyCount + 1)
      else (if emptyCount > 0 then [char_of (48 + emptyCount)] else [])
           @ [piece] @ fenRank b rank files 0)"

fun fenPlacement :: "(int \<times> int \<Rightarrow> char) \<Rightarrow> int list \<Rightarrow> string" where
  "fenPlacement b [] = []"
| "fenPlacement b (rank # ranks) =
     fenRank b rank [0..7] 0 @ (if rank < 7 then ''/'' else []) @ fenPlacement b ranks"

text \<open>\<^verbatim>\<open>sprintf(fenPtr, "%d", n)\<close>: the decimal digits, with a sign for a negative number.\<close>

fun decimal :: "nat \<Rightarrow> string" where
  "decimal n =
     (if n < 10 then [char_of (48 + n)] else decimal (n div 10) @ [char_of (48 + n mod 10)])"

definition sprintf_d :: "int \<Rightarrow> string" where
  "sprintf_d n = (if n < 0 then CHR ''-'' # decimal (nat (- n)) else decimal (nat n))"

definition gameStateToFEN :: "GameState \<Rightarrow> string" where
  "gameStateToFEN state =
     fenPlacement (board state) [0..7]
     @ '' '' @ [if isWhiteTurn state then CHR ''w'' else CHR ''b'']
     @ '' ''
     @ (if canWhiteCastleKingside state then ''K'' else [])
     @ (if canWhiteCastleQueenside state then ''Q'' else [])
     @ (if canBlackCastleKingside state then ''k'' else [])
     @ (if canBlackCastleQueenside state then ''q'' else [])
     @ (if \<not> (canWhiteCastleKingside state \<or> canWhiteCastleQueenside state
               \<or> canBlackCastleKingside state \<or> canBlackCastleQueenside state)
        then ''-'' else [])
     @ '' ''
     @ (if enPassantTargetRow state \<noteq> -1 \<and> enPassantTargetCol state \<noteq> -1
        then [char_of (97 + enPassantTargetCol state), char_of (56 - enPassantTargetRow state)]
        else ''-'')
     @ '' '' @ sprintf_d (halfmoveClock state)
     @ '' '' @ sprintf_d (fullmoveNumber state)"

text \<open>
  \<^verbatim>\<open>fenToGameState\<close> walks a pointer over a NUL-terminated string. The model holds the
  characters before the terminator in a list: \<open>peek\<close> is \<^verbatim>\<open>*ptr\<close> (NUL at the end of the
  list) and \<open>tl\<close> is \<^verbatim>\<open>ptr++\<close>.
\<close>

definition peek :: "string \<Rightarrow> char" where
  "peek p = (case p of [] \<Rightarrow> CHR 0x00 | c # _ \<Rightarrow> c)"

fun parsePlacement :: "string \<Rightarrow> GameState \<Rightarrow> int \<Rightarrow> int \<Rightarrow> GameState \<times> string" where
  "parsePlacement [] state rank file = (state, [])"
| "parsePlacement (c # rest) state rank file =
     (if c = CHR 0x00 \<or> c = CHR '' '' then (state, c # rest)
      else if c = CHR ''/'' then parsePlacement rest state (rank + 1) 0
      else if isdigit c then parsePlacement rest state rank (file + (of_char c - 48))
      else if rank < 8 \<and> file < 8
        then parsePlacement rest (setSquare state rank file c) rank (file + 1)
      else parsePlacement rest state rank file)"

fun parseCastling :: "string \<Rightarrow> GameState \<Rightarrow> GameState \<times> string" where
  "parseCastling [] state = (state, [])"
| "parseCastling (c # rest) state =
     (if c = CHR 0x00 \<or> c = CHR '' '' then (state, c # rest)
      else if c = CHR ''K'' then parseCastling rest (state\<lparr>canWhiteCastleKingside := True\<rparr>)
      else if c = CHR ''Q'' then parseCastling rest (state\<lparr>canWhiteCastleQueenside := True\<rparr>)
      else if c = CHR ''k'' then parseCastling rest (state\<lparr>canBlackCastleKingside := True\<rparr>)
      else if c = CHR ''q'' then parseCastling rest (state\<lparr>canBlackCastleQueenside := True\<rparr>)
      else parseCastling rest state)"

text \<open>The two digit loops \<^verbatim>\<open>while (*ptr && isdigit(*ptr)) n = n * 10 + (*ptr - '0')\<close>.\<close>

fun parseNumber :: "string \<Rightarrow> int \<Rightarrow> int \<times> string" where
  "parseNumber [] n = (n, [])"
| "parseNumber (c # rest) n =
     (if c \<noteq> CHR 0x00 \<and> isdigit c then parseNumber rest (n * 10 + (of_char c - 48))
      else (n, c # rest))"

definition skipSpace :: "string \<Rightarrow> string" where
  "skipSpace p = (if peek p = CHR '' '' then tl p else p)"

definition parseEnPassant :: "string \<Rightarrow> GameState \<Rightarrow> GameState \<times> string" where
  "parseEnPassant p state =
     (let state1 = state\<lparr>enPassantTargetRow := -1, enPassantTargetCol := -1\<rparr> in
      if peek p \<noteq> CHR ''-'' then
        (if (of_char (peek p) :: nat) \<ge> 97 \<and> (of_char (peek p) :: nat) \<le> 104 then
           (let state2 = state1\<lparr>enPassantTargetCol := of_char (peek p) - 97\<rparr>;
                p1 = tl p in
            if (of_char (peek p1) :: nat) \<ge> 49 \<and> (of_char (peek p1) :: nat) \<le> 56
            then (state2\<lparr>enPassantTargetRow := 56 - of_char (peek p1)\<rparr>, tl p1)
            else (state2, p1))
         else (state1, p))
      else (state1, tl p))"

definition fenToGameState :: "string \<Rightarrow> bool \<times> GameState" where
  "fenToGameState fen =
     (let state0 = \<lparr> whiteCastleKingside = False, whiteCastleQueenside = False,
                     blackCastleKingside = False, blackCastleQueenside = False,
                     enPassantTargetRow = 0, enPassantTargetCol = 0,
                     halfmoveClock = 0, fullmoveNumber = 0,
                     board = (\<lambda>_. EMPTY), isWhiteTurn = False,
                     canWhiteCastleKingside = False, canWhiteCastleQueenside = False,
                     canBlackCastleKingside = False, canBlackCastleQueenside = False \<rparr>;
          (state1, p1) = parsePlacement fen state0 0 0;
          p2 = skipSpace p1;
          state2 = state1\<lparr>isWhiteTurn := (peek p2 = CHR ''w'')\<rparr>;
          p3 = skipSpace (tl p2);
          state3 = state2\<lparr>canWhiteCastleKingside := False, canWhiteCastleQueenside := False,
                          canBlackCastleKingside := False, canBlackCastleQueenside := False\<rparr>;
          (state4, p4) = parseCastling p3 state3;
          state5 = state4\<lparr>whiteCastleKingside := canWhiteCastleKingside state4,
                          whiteCastleQueenside := canWhiteCastleQueenside state4,
                          blackCastleKingside := canBlackCastleKingside state4,
                          blackCastleQueenside := canBlackCastleQueenside state4\<rparr>;
          p5 = skipSpace p4;
          (state6, p6) = parseEnPassant p5 state5;
          p7 = skipSpace p6;
          (halfmove, p8) = parseNumber p7 0;
          state7 = state6\<lparr>halfmoveClock := halfmove\<rparr>;
          p9 = skipSpace p8;
          (fullmove, p10) = parseNumber p9 1
      in (True, state7\<lparr>fullmoveNumber := fullmove\<rparr>))"

section \<open>The legality engine\<close>

subsection \<open>Movement patterns\<close>

definition isValidPawnMove :: "GameState \<Rightarrow> int \<Rightarrow> int \<Rightarrow> int \<Rightarrow> int \<Rightarrow> bool" where
  "isValidPawnMove state fromRow fromCol toRow toCol =
     (let piece = board state (fromRow, fromCol);
          direction = (if isupper piece then -1 else 1);
          startRow = (if isupper piece then 6 else 1)
      in
      if toRow < 0 \<or> toRow \<ge> 8 \<or> toCol < 0 \<or> toCol \<ge> 8 then False
      else if fromCol = toCol \<and> toRow = fromRow + direction
              \<and> board state (toRow, toCol) = EMPTY then True
      else if fromCol = toCol \<and> fromRow = startRow \<and> toRow = fromRow + 2 * direction then
        (if board state (fromRow + direction, fromCol) = EMPTY
            \<and> board state (toRow, toCol) = EMPTY then True else False)
      else if abs (fromCol - toCol) = 1 \<and> toRow = fromRow + direction
              \<and> board state (toRow, toCol) \<noteq> EMPTY
              \<and> ((isupper piece \<and> islower (board state (toRow, toCol)))
                   \<or> (islower piece \<and> isupper (board state (toRow, toCol)))) then True
      else if abs (fromCol - toCol) = 1 \<and> toRow = fromRow + direction
              \<and> board state (toRow, toCol) = EMPTY
              \<and> toRow = enPassantTargetRow state
              \<and> toCol = enPassantTargetCol state then True
      else False)"

text \<open>
  The path loops of the rook and the bishop, with the loop variables \<^verbatim>\<open>row\<close> and \<^verbatim>\<open>col\<close>
  as arguments. A loop that does not leave is the value \<open>None\<close>.
\<close>

partial_function (option) rookPath ::
  "GameState \<Rightarrow> int \<Rightarrow> int \<Rightarrow> int \<Rightarrow> int \<Rightarrow> int \<Rightarrow> int \<Rightarrow> bool option" where
  "rookPath state rowStep colStep toRow toCol row col =
     (if row \<noteq> toRow \<or> col \<noteq> toCol then
        (if row < 0 \<or> row \<ge> 8 \<or> col < 0 \<or> col \<ge> 8 then Some False
         else if board state (row, col) \<noteq> EMPTY then Some False
         else rookPath state rowStep colStep toRow toCol (row + rowStep) (col + colStep))
      else Some True)"

declare rookPath.simps [code]

definition isValidRookMove :: "GameState \<Rightarrow> int \<Rightarrow> int \<Rightarrow> int \<Rightarrow> int \<Rightarrow> bool option" where
  "isValidRookMove state fromRow fromCol toRow toCol =
     (if fromRow \<noteq> toRow \<and> fromCol \<noteq> toCol then Some False
      else if fromRow = toRow \<and> fromCol = toCol then Some False
      else
        (let rowStep = (if toRow > fromRow then 1 else if toRow < fromRow then -1 else 0);
             colStep = (if toCol > fromCol then 1 else if toCol < fromCol then -1 else 0)
         in rookPath state rowStep colStep toRow toCol (fromRow + rowStep) (fromCol + colStep)))"

definition isValidKnightMove :: "GameState \<Rightarrow> int \<Rightarrow> int \<Rightarrow> int \<Rightarrow> int \<Rightarrow> bool" where
  "isValidKnightMove state fromRow fromCol toRow toCol =
     (let rowDiff = abs (toRow - fromRow);
          colDiff = abs (toCol - fromCol)
      in (rowDiff = 2 \<and> colDiff = 1) \<or> (rowDiff = 1 \<and> colDiff = 2))"

partial_function (option) bishopPath ::
  "GameState \<Rightarrow> int \<Rightarrow> int \<Rightarrow> int \<Rightarrow> int \<Rightarrow> int \<Rightarrow> int \<Rightarrow> bool option" where
  "bishopPath state rowStep colStep toRow toCol row col =
     (if row \<noteq> toRow \<and> col \<noteq> toCol then
        (if row < 0 \<or> row \<ge> 8 \<or> col < 0 \<or> col \<ge> 8 then Some False
         else if board state (row, col) \<noteq> EMPTY then Some False
         else bishopPath state rowStep colStep toRow toCol (row + rowStep) (col + colStep))
      else Some True)"

declare bishopPath.simps [code]

definition isValidBishopMove :: "GameState \<Rightarrow> int \<Rightarrow> int \<Rightarrow> int \<Rightarrow> int \<Rightarrow> bool option" where
  "isValidBishopMove state fromRow fromCol toRow toCol =
     (if abs (toRow - fromRow) \<noteq> abs (toCol - fromCol) then Some False
      else if fromRow = toRow \<and> fromCol = toCol then Some False
      else
        (let rowStep = (if toRow > fromRow then 1 else -1);
             colStep = (if toCol > fromCol then 1 else -1)
         in bishopPath state rowStep colStep toRow toCol (fromRow + rowStep) (fromCol + colStep)))"

definition isValidQueenMove :: "GameState \<Rightarrow> int \<Rightarrow> int \<Rightarrow> int \<Rightarrow> int \<Rightarrow> bool option" where
  "isValidQueenMove state fromRow fromCol toRow toCol =
     do {
       rookMove \<leftarrow> isValidRookMove state fromRow fromCol toRow toCol;
       if rookMove then Some True
       else isValidBishopMove state fromRow fromCol toRow toCol
     }"

subsection \<open>Attack and check detection\<close>

text \<open>
  Functions that write to \<^verbatim>\<open>*state\<close> return the state they leave behind next to their
  result. \<^verbatim>\<open>isSquareAttacked\<close> sets the side-to-move flag for the duration of each
  pattern test and puts the saved value back before it looks at the result.
\<close>

text \<open>The \<^verbatim>\<open>switch (pieceType)\<close> of \<^verbatim>\<open>isSquareAttacked\<close>; without a case, no attack.\<close>

definition isSquareAttacked_switch ::
  "GameState \<Rightarrow> char \<Rightarrow> int \<Rightarrow> int \<Rightarrow> int \<Rightarrow> int \<Rightarrow> bool option" where
  "isSquareAttacked_switch state piece i j row col =
     (let pieceType = toupper piece in
      if pieceType = WHITE_PAWN then
        (let direction = (if isupper piece then -1 else 1)
         in Some (abs (j - col) = 1 \<and> row = i + direction))
      else if pieceType = WHITE_ROOK then
        (if i = row \<or> j = col then isValidRookMove state i j row col
         else Some False)
      else if pieceType = WHITE_KNIGHT then
        Some (isValidKnightMove state i j row col)
      else if pieceType = WHITE_BISHOP then
        (if abs (i - row) = abs (j - col) then isValidBishopMove state i j row col
         else Some False)
      else if pieceType = WHITE_QUEEN then
        (if i = row \<or> j = col \<or> abs (i - row) = abs (j - col)
         then isValidQueenMove state i j row col
         else Some False)
      else if pieceType = WHITE_KING then
        Some (abs (i - row) \<le> 1 \<and> abs (j - col) \<le> 1 \<and> (i \<noteq> row \<or> j \<noteq> col))
      else Some False)"

fun isSquareAttacked_loop ::
  "(int \<times> int) list \<Rightarrow> GameState \<Rightarrow> int \<Rightarrow> int \<Rightarrow> bool \<Rightarrow> (bool \<times> GameState) option" where
  "isSquareAttacked_loop [] state row col byWhite = Some (False, state)"
| "isSquareAttacked_loop ((i, j) # rest) state row col byWhite =
     (let piece = board state (i, j) in
      if piece \<noteq> EMPTY \<and> ((byWhite \<and> isupper piece) \<or> (\<not> byWhite \<and> islower piece)) then
        (let originalTurn = isWhiteTurn state;
             state1 = state\<lparr>isWhiteTurn := byWhite\<rparr>
         in do {
           validMove \<leftarrow> isSquareAttacked_switch state1 piece i j row col;
           let state2 = state1\<lparr>isWhiteTurn := originalTurn\<rparr>;
           if validMove then Some (True, state2)
           else isSquareAttacked_loop rest state2 row col byWhite
         })
      else isSquareAttacked_loop rest state row col byWhite)"

definition isSquareAttacked ::
  "GameState \<Rightarrow> int \<Rightarrow> int \<Rightarrow> bool \<Rightarrow> (bool \<times> GameState) option" where
  "isSquareAttacked state row col byWhite = isSquareAttacked_loop squares state row col byWhite"

text \<open>
  The king search shared by \<^verbatim>\<open>isInCheck\<close>, \<^verbatim>\<open>isCheckmate\<close> and \<^verbatim>\<open>getPinInfo\<close>: the first
  square in row-major order that holds \<^verbatim>\<open>kingPiece\<close>, or (-1, -1).
\<close>

fun findKing :: "(int \<times> int) list \<Rightarrow> GameState \<Rightarrow> char \<Rightarrow> int \<times> int" where
  "findKing [] state kingPiece = (-1, -1)"
| "findKing ((i, j) # rest) state kingPiece =
     (if board state (i, j) = kingPiece then (i, j) else findKing rest state kingPiece)"

definition isInCheck :: "GameState \<Rightarrow> bool \<Rightarrow> (bool \<times> GameState) option" where
  "isInCheck state isWhiteKing =
     (let kingPiece = (if isWhiteKing then WHITE_KING else BLACK_KING);
          (kingRow, kingCol) = findKing squares state kingPiece
      in
      if kingRow = -1 \<or> kingCol = -1 then Some (False, state)
      else isSquareAttacked state kingRow kingCol (\<not> isWhiteKing))"

subsection \<open>Castling\<close>

partial_function (option) castlingPathEmpty ::
  "GameState \<Rightarrow> int \<Rightarrow> int \<Rightarrow> int \<Rightarrow> int \<Rightarrow> bool option" where
  "castlingPathEmpty state fromRow rookCol step col =
     (if col \<noteq> rookCol then
        (if board state (fromRow, col) \<noteq> EMPTY then Some False
         else castlingPathEmpty state fromRow rookCol step (col + step))
      else Some True)"

declare castlingPathEmpty.simps [code]

partial_function (option) castlingPathSafe ::
  "GameState \<Rightarrow> int \<Rightarrow> int \<Rightarrow> int \<Rightarrow> bool \<Rightarrow> int \<Rightarrow> (bool \<times> GameState) option" where
  "castlingPathSafe state fromRow endCol step isWhite col =
     (if col \<noteq> endCol + step then
        do {
          (attacked, state1) \<leftarrow> isSquareAttacked state fromRow col (\<not> isWhite);
          if attacked then Some (False, state1)
          else castlingPathSafe state1 fromRow endCol step isWhite (col + step)
        }
      else Some (True, state))"

declare castlingPathSafe.simps [code]

definition isValidCastling ::
  "GameState \<Rightarrow> int \<Rightarrow> int \<Rightarrow> int \<Rightarrow> int \<Rightarrow> (bool \<times> GameState) option" where
  "isValidCastling state fromRow fromCol toRow toCol =
     (let piece = board state (fromRow, fromCol);
          isWhite = isupper piece;
          isKingSide = (toCol > fromCol)
      in
      if toupper piece \<noteq> WHITE_KING \<or> fromRow \<noteq> (if isWhite then 7 else 0) \<or> fromCol \<noteq> 4
        then Some (False, state)
      else if abs (toCol - fromCol) \<noteq> 2 \<or> toRow \<noteq> fromRow then Some (False, state)
      else do {
        (inCheck, state1) \<leftarrow> isInCheck state isWhite;
        if inCheck then Some (False, state1)
        else if isWhite \<and> isKingSide \<and> \<not> canWhiteCastleKingside state1 then Some (False, state1)
        else if isWhite \<and> \<not> isKingSide \<and> \<not> canWhiteCastleQueenside state1
          then Some (False, state1)
        else if \<not> isWhite \<and> isKingSide \<and> \<not> canBlackCastleKingside state1
          then Some (False, state1)
        else if \<not> isWhite \<and> \<not> isKingSide \<and> \<not> canBlackCastleQueenside state1
          then Some (False, state1)
        else
          (let rookCol = (if isKingSide then 7 else 0);
               expectedRook = (if isWhite then WHITE_ROOK else BLACK_ROOK)
           in
           if board state1 (fromRow, rookCol) \<noteq> expectedRook then Some (False, state1)
           else
             (let step = (if isKingSide then 1 else -1) in
              do {
                pathEmpty \<leftarrow> castlingPathEmpty state1 fromRow rookCol step (fromCol + step);
                if \<not> pathEmpty then Some (False, state1)
                else castlingPathSafe state1 fromRow toCol step isWhite fromCol
              }))
      })"

definition isValidKingMove ::
  "GameState \<Rightarrow> int \<Rightarrow> int \<Rightarrow> int \<Rightarrow> int \<Rightarrow> (bool \<times> GameState) option" where
  "isValidKingMove state fromRow fromCol toRow toCol =
     (if abs (toRow - fromRow) \<le> 1 \<and> abs (toCol - fromCol) \<le> 1 then Some (True, state)
      else if abs (fromCol - toCol) = 2 \<and> fromRow = toRow
        then isValidCastling state fromRow fromCol toRow toCol
      else Some (False, state))"

subsection \<open>Pin detection\<close>

record PinInfo =
  isPinned :: bool
  pinDirection :: "int \<times> int"
  pinningPieceRow :: int
  pinningPieceCol :: int

definition noPin :: PinInfo where
  "noPin = \<lparr> isPinned = False, pinDirection = (0, 0),
             pinningPieceRow = -1, pinningPieceCol = -1 \<rparr>"

partial_function (option) pinScan ::
  "GameState \<Rightarrow> bool \<Rightarrow> int \<Rightarrow> int \<Rightarrow> int \<Rightarrow> int \<Rightarrow> PinInfo option" where
  "pinScan state isWhitePiece stepR stepC checkRow checkCol =
     (if checkRow \<ge> 0 \<and> checkRow < 8 \<and> checkCol \<ge> 0 \<and> checkCol < 8 then
        (let checkPiece = board state (checkRow, checkCol) in
         if checkPiece \<noteq> EMPTY then
           (let isEnemyPiece = ((isWhitePiece \<and> islower checkPiece)
                                \<or> (\<not> isWhitePiece \<and> isupper checkPiece))
            in
            if isEnemyPiece then
              (let pieceType = toupper checkPiece;
                   canPin1 = ((stepR = 0 \<or> stepC = 0)
                              \<and> (pieceType = CHR ''R'' \<or> pieceType = CHR ''Q''));
                   canPin = (if abs stepR = abs stepC
                                \<and> (pieceType = CHR ''B'' \<or> pieceType = CHR ''Q'')
                             then True else canPin1)
               in
               if canPin then
                 Some \<lparr> isPinned = True, pinDirection = (stepR, stepC),
                        pinningPieceRow = checkRow, pinningPieceCol = checkCol \<rparr>
               else Some noPin)
            else Some noPin)
         else pinScan state isWhitePiece stepR stepC (checkRow + stepR) (checkCol + stepC))
      else Some noPin)"

declare pinScan.simps [code]

text \<open>
  \<^verbatim>\<open>dr / abs(dr)\<close> divides exactly, so C's truncating division and \<open>div\<close> agree.
\<close>

definition getPinInfo :: "GameState \<Rightarrow> int \<Rightarrow> int \<Rightarrow> PinInfo option" where
  "getPinInfo state row col =
     (let piece = board state (row, col) in
      if piece = EMPTY then Some noPin
      else
        (let isWhitePiece = isupper piece;
             kingPiece = (if isWhitePiece then WHITE_KING else BLACK_KING);
             (kingRow, kingCol) = findKing squares state kingPiece
         in
         if kingRow = -1 then Some noPin
         else
           (let dr = kingRow - row;
                dc = kingCol - col;
                stepR = (if dr \<noteq> 0 then dr div abs dr else 0);
                stepC = (if dc \<noteq> 0 then dc div abs dc else 0)
            in
            if \<not> (dr = 0 \<or> dc = 0 \<or> abs dr = abs dc) then Some noPin
            else pinScan state isWhitePiece stepR stepC (kingRow + stepR) (kingCol + stepC))))"

definition isMoveAlongPinRay :: "int \<Rightarrow> int \<Rightarrow> int \<Rightarrow> int \<Rightarrow> PinInfo \<Rightarrow> bool" where
  "isMoveAlongPinRay fromRow fromCol toRow toCol pin =
     (if \<not> isPinned pin then True
      else
        (let moveDir0 = toRow - fromRow;
             moveDir1 = toCol - fromCol;
             moveDirNorm0 = (if moveDir0 \<noteq> 0 then moveDir0 div abs moveDir0 else 0);
             moveDirNorm1 = (if moveDir1 \<noteq> 0 then moveDir1 div abs moveDir1 else 0)
         in (moveDirNorm0 = fst (pinDirection pin) \<and> moveDirNorm1 = snd (pinDirection pin))
            \<or> (moveDirNorm0 = - fst (pinDirection pin)
                \<and> moveDirNorm1 = - snd (pinDirection pin))))"

subsection \<open>The legality query\<close>

definition doesMovePutKingInCheck ::
  "GameState \<Rightarrow> int \<Rightarrow> int \<Rightarrow> int \<Rightarrow> int \<Rightarrow> (bool \<times> GameState) option" where
  "doesMovePutKingInCheck state fromRow fromCol toRow toCol =
     (let tempPiece = board state (toRow, toCol);
          state1 = setSquare state toRow toCol (board state (fromRow, fromCol));
          state2 = setSquare state1 fromRow fromCol EMPTY
      in do {
        (kingInCheck, state3) \<leftarrow> isInCheck state2 (isWhiteTurn state2);
        let state4 = setSquare state3 fromRow fromCol (board state3 (toRow, toCol));
        let state5 = setSquare state4 toRow toCol tempPiece;
        Some (kingInCheck, state5)
      })"

text \<open>The part of \<^verbatim>\<open>isValidMove\<close> after the \<^verbatim>\<open>switch\<close> on the piece kind.\<close>

definition isValidMove_checks ::
  "bool \<Rightarrow> GameState \<Rightarrow> int \<Rightarrow> int \<Rightarrow> int \<Rightarrow> int \<Rightarrow> (bool \<times> GameState) option" where
  "isValidMove_checks validPieceMove state fromRow fromCol toRow toCol =
     (if \<not> validPieceMove then Some (False, state)
      else do {
        pinInfo \<leftarrow> getPinInfo state fromRow fromCol;
        if isPinned pinInfo \<and> \<not> isMoveAlongPinRay fromRow fromCol toRow toCol pinInfo
          then Some (False, state)
        else do {
          (inCheck, state1) \<leftarrow> doesMovePutKingInCheck state fromRow fromCol toRow toCol;
          if inCheck then Some (False, state1) else Some (True, state1)
        }
      })"

definition isValidMove ::
  "GameState \<Rightarrow> int \<Rightarrow> int \<Rightarrow> int \<Rightarrow> int \<Rightarrow> (bool \<times> GameState) option" where
  "isValidMove state fromRow fromCol toRow toCol =
     (if fromRow < 0 \<or> fromRow \<ge> 8 \<or> fromCol < 0 \<or> fromCol \<ge> 8
         \<or> toRow < 0 \<or> toRow \<ge> 8 \<or> toCol < 0 \<or> toCol \<ge> 8 then Some (False, state)
      else
        (let piece = board state (fromRow, fromCol) in
         if piece = EMPTY then Some (False, state)
         else if isWhiteTurn state \<and> \<not> isupper piece then Some (False, state)
         else if \<not> isWhiteTurn state \<and> isupper piece then Some (False, state)
         else if isWhiteTurn state \<and> isupper (board state (toRow, toCol))
           then Some (False, state)
         else if \<not> isWhiteTurn state \<and> islower (board state (toRow, toCol))
           then Some (False, state)
         else if toupper piece = WHITE_PAWN then
           isValidMove_checks (isValidPawnMove state fromRow fromCol toRow toCol)
             state fromRow fromCol toRow toCol
         else if toupper piece = WHITE_ROOK then
           do {
             validPieceMove \<leftarrow> isValidRookMove state fromRow fromCol toRow toCol;
             isValidMove_checks validPieceMove state fromRow fromCol toRow toCol
           }
         else if toupper piece = WHITE_KNIGHT then
           isValidMove_checks (isValidKnightMove state fromRow fromCol toRow toCol)
             state fromRow fromCol toRow toCol
         else if toupper piece = WHITE_BISHOP then
           do {
             validPieceMove \<leftarrow> isValidBishopMove state fromRow fromCol toRow toCol;
             isValidMove_checks validPieceMove state fromRow fromCol toRow toCol
           }
         else if toupper piece = WHITE_QUEEN then
           do {
             validPieceMove \<leftarrow> isValidQueenMove state fromRow fromCol toRow toCol;
             isValidMove_checks validPieceMove state fromRow fromCol toRow toCol
           }
         else if toupper piece = WHITE_KING then
           do {
             (validPieceMove, state1) \<leftarrow> isValidKingMove state fromRow fromCol toRow toCol;
             isValidMove_checks validPieceMove state1 fromRow fromCol toRow toCol
           }
         else Some (False, state)))"

section \<open>Applying a move\<close>

text \<open>
  \<^verbatim>\<open>promotePawn\<close> reads characters with \<^verbatim>\<open>scanf(" %c", ...)\<close> until one of Q, R, B, N
  (in either case) arrives. The characters the user will type are the argument \<open>input\<close>;
  the function returns what is left of them. With no accepted character in the input the
  loop never leaves, which is the value \<open>None\<close>.
\<close>

fun promotePawn :: "string \<Rightarrow> GameState \<Rightarrow> int \<Rightarrow> int \<Rightarrow> (GameState \<times> string) option" where
  "promotePawn [] state row col = None"
| "promotePawn (ch # input) state row col =
     (let promotion = toupper ch in
      if promotion \<noteq> CHR ''Q'' \<and> promotion \<noteq> CHR ''R''
         \<and> promotion \<noteq> CHR ''B'' \<and> promotion \<noteq> CHR ''N''
        then promotePawn input state row col
      else if isupper (board state (row, col))
        then Some (setSquare state row col promotion, input)
      else Some (setSquare state row col (tolower promotion), input))"

definition updateCastlingRights ::
  "GameState \<Rightarrow> int \<Rightarrow> int \<Rightarrow> int \<Rightarrow> int \<Rightarrow> GameState" where
  "updateCastlingRights state fromRow fromCol toRow toCol =
     (let piece = board state (toRow, toCol);
          state1 =
            (if piece = WHITE_KING then
               state\<lparr>canWhiteCastleKingside := False, canWhiteCastleQueenside := False\<rparr>
             else if piece = BLACK_KING then
               state\<lparr>canBlackCastleKingside := False, canBlackCastleQueenside := False\<rparr>
             else if piece = WHITE_ROOK then
               (let s1 = (if fromRow = 7 \<and> fromCol = 0
                          then state\<lparr>canWhiteCastleQueenside := False\<rparr> else state)
                in if fromRow = 7 \<and> fromCol = 7
                   then s1\<lparr>canWhiteCastleKingside := False\<rparr> else s1)
             else if piece = BLACK_ROOK then
               (let s1 = (if fromRow = 0 \<and> fromCol = 0
                          then state\<lparr>canBlackCastleQueenside := False\<rparr> else state)
                in if fromRow = 0 \<and> fromCol = 7
                   then s1\<lparr>canBlackCastleKingside := False\<rparr> else s1)
             else state);
          state2 = (if toRow = 0 \<and> toCol = 0
                    then state1\<lparr>canBlackCastleQueenside := False\<rparr> else state1);
          state3 = (if toRow = 0 \<and> toCol = 7
                    then state2\<lparr>canBlackCastleKingside := False\<rparr> else state2);
          state4 = (if toRow = 7 \<and> toCol = 0
                    then state3\<lparr>canWhiteCastleQueenside := False\<rparr> else state3)
      in if toRow = 7 \<and> toCol = 7
         then state4\<lparr>canWhiteCastleKingside := False\<rparr> else state4)"

text \<open>
  \<^verbatim>\<open>makeMove\<close> does not check its arguments and does not flip the side to move (its
  callers do both). \<^verbatim>\<open>(fromRow + toRow) / 2\<close> is taken on board coordinates, where C's
  division and \<open>div\<close> agree.
\<close>

definition makeMove ::
  "string \<Rightarrow> GameState \<Rightarrow> int \<Rightarrow> int \<Rightarrow> int \<Rightarrow> int \<Rightarrow> (GameState \<times> string) option" where
  "makeMove input state fromRow fromCol toRow toCol =
     (let piece = board state (fromRow, fromCol);
          capturedPiece = board state (toRow, toCol);
          state1 = setSquare state toRow toCol (board state (fromRow, fromCol));
          state2 = setSquare state1 fromRow fromCol EMPTY;
          state3 =
            (if toupper piece = WHITE_KING \<and> abs (fromCol - toCol) = 2 then
               (let rookFromCol = (if toCol > fromCol then 7 else 0);
                    rookToCol = (if toCol > fromCol then toCol - 1 else toCol + 1);
                    s1 = setSquare state2 toRow rookToCol (board state2 (fromRow, rookFromCol))
                in setSquare s1 fromRow rookFromCol EMPTY)
             else state2);
          state4 =
            (if toupper piece = WHITE_PAWN \<and> toCol = enPassantTargetCol state3
                \<and> toRow = enPassantTargetRow state3
             then setSquare state3 fromRow toCol EMPTY
             else state3)
      in do {
        (state5, input1) \<leftarrow>
          (if (piece = WHITE_PAWN \<and> toRow = 0) \<or> (piece = BLACK_PAWN \<and> toRow = 7)
           then promotePawn input state4 toRow toCol
           else Some (state4, input));
        let state6 = updateCastlingRights state5 fromRow fromCol toRow toCol;
        let state7 = state6\<lparr>enPassantTargetRow := -1, enPassantTargetCol := -1\<rparr>;
        let state8 =
          (if toupper piece = WHITE_PAWN \<and> abs (fromRow - toRow) = 2
           then state7\<lparr>enPassantTargetRow := (fromRow + toRow) div 2,
                       enPassantTargetCol := toCol\<rparr>
           else state7);
        let state9 =
          (if toupper piece = WHITE_PAWN \<or> capturedPiece \<noteq> EMPTY
           then state8\<lparr>halfmoveClock := 0\<rparr>
           else state8\<lparr>halfmoveClock := halfmoveClock state8 + 1\<rparr>);
        let state10 =
          (if \<not> isWhiteTurn state9
           then state9\<lparr>fullmoveNumber := fullmoveNumber state9 + 1\<rparr>
           else state9);
        Some (state10, input1)
      })"

section \<open>The move generator\<close>

fun isPieceUnderAttack_loop ::
  "(int \<times> int) list \<Rightarrow> GameState \<Rightarrow> int \<Rightarrow> int \<Rightarrow> bool \<Rightarrow> (bool \<times> GameState) option" where
  "isPieceUnderAttack_loop [] state row col isWhitePiece = Some (False, state)"
| "isPieceUnderAttack_loop ((i, j) # rest) state row col isWhitePiece =
     (let attackingPiece = board state (i, j) in
      if attackingPiece \<noteq> EMPTY
         \<and> ((isWhitePiece \<and> islower attackingPiece)
             \<or> (\<not> isWhitePiece \<and> isupper attackingPiece)) then
        (let originalTurn = isWhiteTurn state;
             state1 = state\<lparr>isWhiteTurn := isupper attackingPiece\<rparr>
         in do {
           (valid, state2) \<leftarrow> isValidMove state1 i j row col;
           if valid then Some (True, state2\<lparr>isWhiteTurn := originalTurn\<rparr>)
           else isPieceUnderAttack_loop rest (state2\<lparr>isWhiteTurn := originalTurn\<rparr>)
                  row col isWhitePiece
         })
      else isPieceUnderAttack_loop rest state row col isWhitePiece)"

definition isPieceUnderAttack ::
  "GameState \<Rightarrow> int \<Rightarrow> int \<Rightarrow> (bool \<times> GameState) option" where
  "isPieceUnderAttack state row col =
     (let piece = board state (row, col) in
      if piece = EMPTY then Some (False, state)
      else isPieceUnderAttack_loop squares state row col (isupper piece))"

definition isScholarsMateThreat :: "GameState \<Rightarrow> bool" where
  "isScholarsMateThreat state =
     (let (hasQueenOnH5, hasBishopOnC4) =
            foldl (\<lambda>(q, b) (i, j).
                     (let piece = board state (i, j) in
                      (if piece = WHITE_QUEEN \<and> i = 3 \<and> j = 7 then True else q,
                       if piece = WHITE_BISHOP \<and> i = 4 \<and> j = 2 then True else b)))
                  (False, False) squares
      in hasQueenOnH5 \<and> hasBishopOnC4)"

definition orderingValue :: "char \<Rightarrow> int" where
  "orderingValue c =
     (if c = CHR ''P'' then 100
      else if c = CHR ''N'' \<or> c = CHR ''B'' then 300
      else if c = CHR ''R'' then 500
      else if c = CHR ''Q'' then 900
      else 0)"

definition scoreMoveForOrdering ::
  "GameState \<Rightarrow> int \<Rightarrow> int \<Rightarrow> int \<Rightarrow> int \<Rightarrow> (int \<times> GameState) option" where
  "scoreMoveForOrdering state fromRow fromCol toRow toCol =
     (let movingPiece = board state (fromRow, fromCol);
          capturedPiece = board state (toRow, toCol);
          score1 =
            (if capturedPiece \<noteq> EMPTY then
               (let victimValue = orderingValue (toupper capturedPiece);
                    attackerValue = orderingValue (toupper movingPiece)
                in victimValue - attackerValue div 10)
             else 0);
          piece = board state (fromRow, fromCol);
          score2 = (if piece = BLACK_KNIGHT \<and> toRow = 3 \<and> toCol = 7
                    then score1 + 5000 else score1);
          score3 = (if piece = BLACK_KNIGHT \<and> toRow = 2 \<and> toCol = 5
                    then score2 + 1000 else score2);
          tempPiece = board state (toRow, toCol);
          state1 = setSquare state toRow toCol (board state (fromRow, fromCol));
          state2 = setSquare state1 fromRow fromCol EMPTY
      in do {
        (givesCheck, state3) \<leftarrow> isInCheck state2 (\<not> isWhiteTurn state2);
        let score4 = (if givesCheck then score3 + 50 else score3);
        let score5 = (if \<not> isWhiteTurn state3 \<and> isScholarsMateThreat state3
                      then score4 + 2000 else score4);
        let state4 = setSquare state3 fromRow fromCol (board state3 (toRow, toCol));
        let state5 = setSquare state4 toRow toCol tempPiece;
        let score6 = (if (toRow \<ge> 3 \<and> toRow \<le> 4) \<and> (toCol \<ge> 3 \<and> toCol \<le> 4)
                      then score5 + 10 else score5);
        (attacked, state6) \<leftarrow> isPieceUnderAttack state5 fromRow fromCol;
        Some (if attacked then score6 + 20 else score6, state6)
      })"

text \<open>
  \<^verbatim>\<open>MoveList\<close>: entries 0 .. count - 1 of the parallel arrays \<^verbatim>\<open>moves\<close> and \<^verbatim>\<open>scores\<close>,
  as a list of (move, score) pairs whose length is \<^verbatim>\<open>count\<close>.
\<close>

type_synonym Move = "int \<times> int \<times> int \<times> int"
type_synonym MoveList = "(Move \<times> int) list"

fun generateAllMoves_to ::
  "(int \<times> int) list \<Rightarrow> GameState \<Rightarrow> MoveList \<Rightarrow> int \<Rightarrow> int \<Rightarrow> (MoveList \<times> GameState) option" where
  "generateAllMoves_to [] state moveList fromRow fromCol = Some (moveList, state)"
| "generateAllMoves_to ((toRow, toCol) # rest) state moveList fromRow fromCol =
     do {
       (valid, state1) \<leftarrow> isValidMove state fromRow fromCol toRow toCol;
       if valid then
         (if length moveList < 256 then
            do {
              (score, state2) \<leftarrow> scoreMoveForOrdering state1 fromRow fromCol toRow toCol;
              generateAllMoves_to rest state2
                (moveList @ [((fromRow, fromCol, toRow, toCol), score)]) fromRow fromCol
            }
          else generateAllMoves_to rest state1 moveList fromRow fromCol)
       else generateAllMoves_to rest state1 moveList fromRow fromCol
     }"

fun generateAllMoves_from ::
  "(int \<times> int) list \<Rightarrow> GameState \<Rightarrow> MoveList \<Rightarrow> (MoveList \<times> GameState) option" where
  "generateAllMoves_from [] state moveList = Some (moveList, state)"
| "generateAllMoves_from ((fromRow, fromCol) # rest) state moveList =
     (let piece = board state (fromRow, fromCol) in
      if (isWhiteTurn state \<and> isupper piece) \<or> (\<not> isWhiteTurn state \<and> islower piece) then
        do {
          (moveList1, state1) \<leftarrow> generateAllMoves_to squares state moveList fromRow fromCol;
          generateAllMoves_from rest state1 moveList1
        }
      else generateAllMoves_from rest state moveList)"

definition generateAllMoves :: "GameState \<Rightarrow> (MoveList \<times> GameState) option" where
  "generateAllMoves state = generateAllMoves_from squares state []"

section \<open>Terminal states\<close>

text \<open>
  The loop over the destination squares of one piece, as \<^verbatim>\<open>isCheckmate\<close> and
  \<^verbatim>\<open>isStalemate\<close> both write it: it leaves at the first accepted move.
\<close>

fun validMoveFrom_loop ::
  "(int \<times> int) list \<Rightarrow> GameState \<Rightarrow> int \<Rightarrow> int \<Rightarrow> (bool \<times> GameState) option" where
  "validMoveFrom_loop [] state fromRow fromCol = Some (False, state)"
| "validMoveFrom_loop ((toRow, toCol) # rest) state fromRow fromCol =
     do {
       (valid, state1) \<leftarrow> isValidMove state fromRow fromCol toRow toCol;
       if valid then Some (True, state1)
       else validMoveFrom_loop rest state1 fromRow fromCol
     }"

definition kingOffsets :: "(int \<times> int) list" where
  "kingOffsets = concat (map (\<lambda>dr. map (\<lambda>dc. (dr, dc)) [-1..1]) [-1..1])"

fun isCheckmate_kingLoop ::
  "(int \<times> int) list \<Rightarrow> GameState \<Rightarrow> int \<Rightarrow> int \<Rightarrow> (bool \<times> GameState) option" where
  "isCheckmate_kingLoop [] state kingRow kingCol = Some (False, state)"
| "isCheckmate_kingLoop ((dr, dc) # rest) state kingRow kingCol =
     (if dr = 0 \<and> dc = 0 then isCheckmate_kingLoop rest state kingRow kingCol
      else
        (let newRow = kingRow + dr;
             newCol = kingCol + dc
         in
         if newRow \<ge> 0 \<and> newRow < 8 \<and> newCol \<ge> 0 \<and> newCol < 8 then
           do {
             (valid, state1) \<leftarrow> isValidMove state kingRow kingCol newRow newCol;
             if valid then Some (True, state1)
             else isCheckmate_kingLoop rest state1 kingRow kingCol
           }
         else isCheckmate_kingLoop rest state kingRow kingCol))"

fun isCheckmate_pieceLoop ::
  "(int \<times> int) list \<Rightarrow> GameState \<Rightarrow> bool \<Rightarrow> (bool \<times> GameState) option" where
  "isCheckmate_pieceLoop [] state isWhiteKing = Some (False, state)"
| "isCheckmate_pieceLoop ((fromRow, fromCol) # rest) state isWhiteKing =
     (let piece = board state (fromRow, fromCol) in
      if (isWhiteKing \<and> isupper piece) \<or> (\<not> isWhiteKing \<and> islower piece) then
        (if toupper piece = WHITE_KING then isCheckmate_pieceLoop rest state isWhiteKing
         else
           do {
             (found, state1) \<leftarrow> validMoveFrom_loop squares state fromRow fromCol;
             if found then Some (True, state1)
             else isCheckmate_pieceLoop rest state1 isWhiteKing
           })
      else isCheckmate_pieceLoop rest state isWhiteKing)"

definition isCheckmate :: "GameState \<Rightarrow> (bool \<times> GameState) option" where
  "isCheckmate state =
     (let isWhiteKing = isWhiteTurn state in
      do {
        (inCheck, state1) \<leftarrow> isInCheck state isWhiteKing;
        if \<not> inCheck then Some (False, state1)
        else
          (let kingPiece = (if isWhiteKing then WHITE_KING else BLACK_KING);
               (kingRow, kingCol) = findKing squares state1 kingPiece
           in do {
             (escape, state2) \<leftarrow>
               (if kingRow \<noteq> -1 then isCheckmate_kingLoop kingOffsets state1 kingRow kingCol
                else Some (False, state1));
             if escape then Some (False, state2)
             else do {
               (found, state3) \<leftarrow> isCheckmate_pieceLoop squares state2 isWhiteKing;
               if found then Some (False, state3) else Some (True, state3)
             }
           })
      })"

fun isStalemate_loop ::
  "(int \<times> int) list \<Rightarrow> GameState \<Rightarrow> (bool \<times> GameState) option" where
  "isStalemate_loop [] state = Some (False, state)"
| "isStalemate_loop ((fromRow, fromCol) # rest) state =
     (let piece = board state (fromRow, fromCol) in
      if (isWhiteTurn state \<and> isupper piece) \<or> (\<not> isWhiteTurn state \<and> islower piece) then
        do {
          (found, state1) \<leftarrow> validMoveFrom_loop squares state fromRow fromCol;
          if found then Some (True, state1)
          else isStalemate_loop rest state1
        }
      else isStalemate_loop rest state)"

definition isStalemate :: "GameState \<Rightarrow> (bool \<times> GameState) option" where
  "isStalemate state =
     do {
       (inCheck, state1) \<leftarrow> isInCheck state (isWhiteTurn state);
       if inCheck then Some (False, state1)
       else do {
         (found, state2) \<leftarrow> isStalemate_loop squares state1;
         if found then Some (False, state2) else Some (True, state2)
       }
     }"

text \<open>
  \<^verbatim>\<open>isInsufficientMaterial\<close>: the counters of the loop are arguments; the tests after the
  loop are the base case.
\<close>

primrec isInsufficientMaterial_loop ::
  "(int \<times> int) list \<Rightarrow> GameState \<Rightarrow> int \<Rightarrow> int \<Rightarrow> int \<Rightarrow> int \<Rightarrow> int \<Rightarrow> int \<Rightarrow> int \<Rightarrow> int \<Rightarrow> bool" where
  "isInsufficientMaterial_loop [] state whitePieces blackPieces whiteKnights blackKnights
       whiteBishops blackBishops whiteBishopSquareColor blackBishopSquareColor =
     (if whitePieces = 1 \<and> blackPieces = 1 then True
      else if (whitePieces = 2 \<and> blackPieces = 1 \<and> (whiteBishops = 1 \<or> whiteKnights = 1))
              \<or> (blackPieces = 2 \<and> whitePieces = 1 \<and> (blackBishops = 1 \<or> blackKnights = 1))
        then True
      else if whitePieces = 2 \<and> blackPieces = 2 \<and> whiteBishops = 1 \<and> blackBishops = 1
              \<and> whiteBishopSquareColor = blackBishopSquareColor then True
      else if whitePieces = 2 \<and> blackPieces = 2 \<and> whiteKnights = 1 \<and> blackKnights = 1
        then True
      else False)"
| "isInsufficientMaterial_loop (sq # rest) state whitePieces blackPieces whiteKnights
       blackKnights whiteBishops blackBishops whiteBishopSquareColor blackBishopSquareColor =
     (let i = fst sq; j = snd sq; piece = board state (i, j) in
      if piece = WHITE_PAWN \<or> piece = WHITE_ROOK \<or> piece = WHITE_QUEEN then False
      else if piece = BLACK_PAWN \<or> piece = BLACK_ROOK \<or> piece = BLACK_QUEEN then False
      else if piece = WHITE_KNIGHT then
        isInsufficientMaterial_loop rest state (whitePieces + 1) blackPieces
          (whiteKnights + 1) blackKnights whiteBishops blackBishops
          whiteBishopSquareColor blackBishopSquareColor
      else if piece = BLACK_KNIGHT then
        isInsufficientMaterial_loop rest state whitePieces (blackPieces + 1)
          whiteKnights (blackKnights + 1) whiteBishops blackBishops
          whiteBishopSquareColor blackBishopSquareColor
      else if piece = WHITE_BISHOP then
        isInsufficientMaterial_loop rest state (whitePieces + 1) blackPieces
          whiteKnights blackKnights (whiteBishops + 1) blackBishops
          ((i + j) mod 2) blackBishopSquareColor
      else if piece = BLACK_BISHOP then
        isInsufficientMaterial_loop rest state whitePieces (blackPieces + 1)
          whiteKnights blackKnights whiteBishops (blackBishops + 1)
          whiteBishopSquareColor ((i + j) mod 2)
      else if piece = WHITE_KING then
        isInsufficientMaterial_loop rest state (whitePieces + 1) blackPieces
          whiteKnights blackKnights whiteBishops blackBishops
          whiteBishopSquareColor blackBishopSquareColor
      else if piece = BLACK_KING then
        isInsufficientMaterial_loop rest state whitePieces (blackPieces + 1)
          whiteKnights blackKnights whiteBishops blackBishops
          whiteBishopSquareColor blackBishopSquareColor
      else
        isInsufficientMaterial_loop rest state whitePieces blackPieces
          whiteKnights blackKnights whiteBishops blackBishops
          whiteBishopSquareColor blackBishopSquareColor)"

definition isInsufficientMaterial :: "GameState \<Rightarrow> bool" where
  "isInsufficientMaterial state = isInsufficientMaterial_loop squares state 0 0 0 0 0 0 (-1) (-1)"

definition isThreefoldRepetition :: "GameState \<Rightarrow> bool" where
  "isThreefoldRepetition state = False"

definition isFiftyMoveRule :: "GameState \<Rightarrow> bool" where
  "isFiftyMoveRule state = (halfmoveClock state \<ge> 100)"

definition isDraw :: "GameState \<Rightarrow> (bool \<times> GameState) option" where
  "isDraw state =
     do {
       (stalemate, state1) \<leftarrow> isStalemate state;
       if stalemate then Some (True, state1)
       else if isInsufficientMaterial state1 then Some (True, state1)
       else if isFiftyMoveRule state1 then Some (True, state1)
       else Some (isThreefoldRepetition state1, state1)
     }"

section \<open>Positions used in the examples\<close>

text \<open>A board given by its eight rows, top row (row 0) first.\<close>

definition boardOf :: "string list \<Rightarrow> int \<times> int \<Rightarrow> char" where
  "boardOf rows = (\<lambda>(r, c).
     if 0 \<le> r \<and> r < 8 \<and> 0 \<le> c \<and> c < 8 then rows ! nat r ! nat c else EMPTY)"

definition positionOf :: "string list \<Rightarrow> bool \<Rightarrow> int \<Rightarrow> int \<Rightarrow> GameState" where
  "positionOf rows whiteToMove epRow epCol =
     \<lparr> whiteCastleKingside = False, whiteCastleQueenside = False,
       blackCastleKingside = False, blackCastleQueenside = False,
       enPassantTargetRow = epRow, enPassantTargetCol = epCol,
       halfmoveClock = 0, fullmoveNumber = 30,
       board = boardOf rows, isWhiteTurn = whiteToMove,
       canWhiteCastleKingside = False, canWhiteCastleQueenside = False,
       canBlackCastleKingside = False, canBlackCastleQueenside = False \<rparr>"

text \<open>
  A knight pinned on the e-file: white king e1, white knight e3, black rook e8.
\<close>

definition pinnedKnightPosition :: GameState where
  "pinnedKnightPosition = positionOf
     [''k   r   '',
      ''        '',
      ''        '',
      ''        '',
      ''        '',
      ''    N   '',
      ''        '',
      ''    K   ''] True (-1) (-1)"

text \<open>
  A knight that is not between its king and the rook: white king e4, white knight e2
  behind it, black rook e8 in front of the king.
\<close>

definition knightBehindKingPosition :: GameState where
  "knightBehindKingPosition = positionOf
     [''k   r   '',
      ''        '',
      ''        '',
      ''        '',
      ''    K   '',
      ''        '',
      ''    N   '',
      ''        ''] True (-1) (-1)"

text \<open>
  En passant on the fifth rank: white king h5, white pawn e5, black pawn d5 (it has just
  moved d7-d5, so the en-passant target is d6 = (2, 3)), black rook a5.
\<close>

definition enPassantPinPosition :: GameState where
  "enPassantPinPosition = positionOf
     [''    k   '',
      ''        '',
      ''        '',
      ''r  pP  K'',
      ''        '',
      ''        '',
      ''        '',
      ''        ''] True 2 3"

text \<open>
  A capture: white rook a1 takes the black rook a8 along the open a-file.
\<close>

definition rookCapturePosition :: GameState where
  "rookCapturePosition = positionOf
     [''r      k'',
      ''        '',
      ''        '',
      ''        '',
      ''        '',
      ''        '',
      ''        '',
      ''R   K   ''] True (-1) (-1)"

text \<open>
  White may castle on either side: king e1 and rooks a1 and h1 on their squares, both
  white rights set, nothing between them, and the black king far away on e8.
\<close>

definition castlingPosition :: GameState where
  "castlingPosition = (positionOf
     [''    k   '',
      ''        '',
      ''        '',
      ''        '',
      ''        '',
      ''        '',
      ''        '',
      ''R   K  R''] True (-1) (-1))
     \<lparr>canWhiteCastleKingside := True, canWhiteCastleQueenside := True\<rparr>"

text \<open>
  Before a double step: Black to move, black pawn d7, white pawn e5.
\<close>

definition doubleStepPosition :: GameState where
  "doubleStepPosition = positionOf
     [''    k   '',
      ''   p    '',
      ''        '',
      ''    P   '',
      ''        '',
      ''        '',
      ''        '',
      ''    K   ''] False (-1) (-1)"

section \<open>The evaluation function and its cache\<close>

abbreviation PAWN_VALUE :: int where "PAWN_VALUE \<equiv> 100"
abbreviation KNIGHT_VALUE :: int where "KNIGHT_VALUE \<equiv> 300"
abbreviation BISHOP_VALUE :: int where "BISHOP_VALUE \<equiv> 300"
abbreviation ROOK_VALUE :: int where "ROOK_VALUE \<equiv> 500"
abbreviation QUEEN_VALUE :: int where "QUEEN_VALUE \<equiv> 900"
abbreviation INT_MIN :: int where "INT_MIN \<equiv> -2147483648"

text \<open>The piece-square tables, row 0 first; \<open>tableAt t row col\<close> is \<^verbatim>\<open>t[row][col]\<close>.\<close>

definition pawnPositionValues :: "int list list" where
  "pawnPositionValues =
     [[0, 0, 0, 0, 0, 0, 0, 0],
      [50, 50, 50, 50, 50, 50, 50, 50],
      [10, 10, 20, 30, 30, 20, 10, 10],
      [5, 5, 10, 25, 25, 10, 5, 5],
      [0, 0, 0, 20, 20, 0, 0, 0],
      [5, -5, -10, 0, 0, -10, -5, 5],
      [5, 10, 10, -20, -20, 10, 10, 5],
      [0, 0, 0, 0, 0, 0, 0, 0]]"

definition knightPositionValues :: "int list list" where
  "knightPositionValues =
     [[-50, -40, -30, -30, -30, -30, -40, -50],
      [-40, -20, 0, 0, 0, 0, -20, -40],
      [-30, 0, 10, 15, 15, 10, 0, -30],
      [-30, 5, 15, 20, 20, 15, 5, -30],
      [-30, 0, 15, 20, 20, 15, 0, -30],
      [-30, 5, 10, 15, 15, 10, 5, -30],
      [-40, -20, 0, 5, 5, 0, -20, -40],
      [-50, -40, -30, -30, -30, -30, -40, -50]]"

definition bishopPositionValues :: "int list list" where
  "bishopPositionValues =
     [[-20, -10, -10, -10, -10, -10, -10, -20],
      [-10, 0, 0, 0, 0, 0, 0, -10],
      [-10, 0, 5, 10, 10, 5, 0, -10],
      [-10, 5, 5, 10, 10, 5, 5, -10],
      [-10, 0, 10, 10, 10, 10, 0, -10],
      [-10, 10, 10, 10, 10, 10, 10, -10],
      [-10, 5, 0, 0, 0, 0, 5, -10],
      [-20, -10, -10, -10, -10, -10, -10, -20]]"

definition rookPositionValues :: "int list list" where
  "rookPositionValues =
     [[0, 0, 0, 0, 0, 0, 0, 0],
      [5, 10, 10, 10, 10, 10, 10, 5],
      [-5, 0, 0, 0, 0, 0, 0, -5],
      [-5, 0, 0, 0, 0, 0, 0, -5],
      [-5, 0, 0, 0, 0, 0, 0, -5],
      [-5, 0, 0, 0, 0, 0, 0, -5],
      [-5, 0, 0, 0, 0, 0, 0, -5],
      [0, 0, 0, 5, 5, 0, 0, 0]]"

definition queenPositionValues :: "int list list" where
  "queenPositionValues =
     [[-20, -10, -10, -5, -5, -10, -10, -20],
      [-10, 0, 0, 0, 0, 0, 0, -10],
      [-10, 0, 5, 5, 5, 5, 0, -10],
      [-5, 0, 5, 5, 5, 5, 0, -5],
      [0, 0, 5, 5, 5, 5, 0, -5],
      [-10, 5, 5, 5, 5, 5, 0, -10],
      [-10, 0, 5, 0, 0, 0, 0, -10],
      [-20, -10, -10, -5, -5, -10, -10, -20]]"

definition kingPositionValues :: "int list list" where
  "kingPositionValues =
     [[-30, -40, -40, -50, -50, -40, -40, -30],
      [-30, -40, -40, -50, -50, -40, -40, -30],
      [-30, -40, -40, -50, -50, -40, -40, -30],
      [-30, -40, -40, -50, -50, -40, -40, -30],
      [-20, -30, -30, -40, -40, -30, -30, -20],
      [-10, -20, -20, -20, -20, -20, -20, -10],
      [20, 20, 0, 0, 0, 0, 20, 20],
      [20, 30, 10, 0, 0, 10, 30, 20]]"

definition tableAt :: "int list list \<Rightarrow> int \<Rightarrow> int \<Rightarrow> int" where
  "tableAt t row col = t ! nat row ! nat col"

text \<open>
  \<^verbatim>\<open>PositionCache\<close> and the two globals \<^verbatim>\<open>evalCache[64]\<close> and \<^verbatim>\<open>cacheIndex\<close>. The fields
  \<^verbatim>\<open>board\<close> and \<^verbatim>\<open>isWhiteTurn\<close> of a cache entry are \<open>cachedBoard\<close> and \<open>cachedTurn\<close> here
  (the names are taken by \<open>GameState\<close>). Globals start zeroed, so no entry is valid.
  \<^verbatim>\<open>cacheIndex\<close> counts the evaluations stored; the model leaves out its wrap-around after
  2^31 of them.
\<close>

record PositionCache =
  cachedBoard :: "int \<times> int \<Rightarrow> char"
  cachedTurn :: bool
  evaluation :: int
  isValid :: bool

record EvalCache =
  evalCache :: "PositionCache list"
  cacheIndex :: int

definition initialCache :: EvalCache where
  "initialCache =
     \<lparr> evalCache = replicate 64 \<lparr> cachedBoard = (\<lambda>_. CHR 0x00), cachedTurn = False,
                                    evaluation = 0, isValid = False \<rparr>,
       cacheIndex = 0 \<rparr>"

fun getCachedEvaluation_loop :: "PositionCache list \<Rightarrow> GameState \<Rightarrow> int" where
  "getCachedEvaluation_loop [] state = INT_MIN"
| "getCachedEvaluation_loop (entry # rest) state =
     (if \<not> isValid entry then getCachedEvaluation_loop rest state
      else if cachedTurn entry \<noteq> isWhiteTurn state then getCachedEvaluation_loop rest state
      else if list_all (\<lambda>sq. cachedBoard entry sq = board state sq) squares
        then evaluation entry
      else getCachedEvaluation_loop rest state)"

definition getCachedEvaluation :: "EvalCache \<Rightarrow> GameState \<Rightarrow> int" where
  "getCachedEvaluation cache state = getCachedEvaluation_loop (evalCache cache) state"

definition cacheEvaluation :: "EvalCache \<Rightarrow> GameState \<Rightarrow> int \<Rightarrow> EvalCache" where
  "cacheEvaluation cache state eval =
     (let index = cacheIndex cache mod 64;
          entry = \<lparr> cachedBoard = (\<lambda>sq. if sq \<in> set squares then board state sq
                                        else cachedBoard (evalCache cache ! nat index) sq),
                    cachedTurn = isWhiteTurn state, evaluation = eval, isValid = True \<rparr>
      in \<lparr> evalCache = (evalCache cache)[nat index := entry],
           cacheIndex = cacheIndex cache + 1 \<rparr>)"

definition evaluatePawnStructure :: "GameState \<Rightarrow> int" where
  "evaluatePawnStructure state =
     foldl (\<lambda>score col.
        (let whitePawns = int (length (filter (\<lambda>row. board state (row, col) = WHITE_PAWN) [0..7]));
             blackPawns = int (length (filter (\<lambda>row. board state (row, col) = BLACK_PAWN) [0..7]));
             score1 = (if whitePawns > 1 then score - 10 * (whitePawns - 1) else score);
             score2 = (if blackPawns > 1 then score1 + 10 * (blackPawns - 1) else score1);
             adjacent = filter (\<lambda>adjCol. adjCol \<ge> 0 \<and> adjCol < 8) [col - 1, col + 1];
             whiteIsolated = list_all (\<lambda>adjCol.
                 list_all (\<lambda>row. board state (row, adjCol) \<noteq> WHITE_PAWN) [0..7]) adjacent;
             blackIsolated = list_all (\<lambda>adjCol.
                 list_all (\<lambda>row. board state (row, adjCol) \<noteq> BLACK_PAWN) [0..7]) adjacent;
             score3 = (if whitePawns > 0 \<and> whiteIsolated then score2 - 15 else score2)
         in if blackPawns > 0 \<and> blackIsolated then score3 + 15 else score3))
       0 [0..7]"

text \<open>
  \<^verbatim>\<open>evaluateKingSafety\<close> scans the whole board without leaving the loop, so it keeps the
  last king of each colour it sees.
\<close>

definition lastKing :: "GameState \<Rightarrow> char \<Rightarrow> int \<times> int" where
  "lastKing state kingPiece =
     foldl (\<lambda>found sq. if board state sq = kingPiece then sq else found) (-1, -1) squares"

definition evaluateKingSafety :: "GameState \<Rightarrow> (int \<times> GameState) option" where
  "evaluateKingSafety state =
     (let (whiteKingRow, whiteKingCol) = lastKing state WHITE_KING;
          (blackKingRow, blackKingCol) = lastKing state BLACK_KING;
          score1 =
            (if whiteKingRow \<noteq> -1 \<and> whiteKingCol \<noteq> -1 then
               foldl (\<lambda>score col.
                  if col \<ge> 0 \<and> col < 8 then
                    (let s1 = (if whiteKingRow > 0
                                  \<and> board state (whiteKingRow - 1, col) = WHITE_PAWN
                               then score + 15 else score)
                     in if whiteKingRow > 1
                           \<and> board state (whiteKingRow - 2, col) = WHITE_PAWN
                        then s1 + 10 else s1)
                  else score)
                 0 [whiteKingCol - 1 .. whiteKingCol + 1]
             else 0);
          score2 =
            (if blackKingRow \<noteq> -1 \<and> blackKingCol \<noteq> -1 then
               foldl (\<lambda>score col.
                  if col \<ge> 0 \<and> col < 8 then
                    (let s1 = (if blackKingRow < 7
                                  \<and> board state (blackKingRow + 1, col) = BLACK_PAWN
                               then score - 15 else score)
                     in if blackKingRow < 6
                           \<and> board state (blackKingRow + 2, col) = BLACK_PAWN
                        then s1 - 10 else s1)
                  else score)
                 score1 [blackKingCol - 1 .. blackKingCol + 1]
             else score1)
      in do {
        (whiteInCheck, state1) \<leftarrow> isInCheck state True;
        let score3 = (if whiteInCheck then score2 - 500 else score2);
        (blackInCheck, state2) \<leftarrow> isInCheck state1 False;
        let score4 = (if blackInCheck then score3 + 500 else score3);
        let score5 =
          (if whiteKingRow \<noteq> -1 \<and> whiteKingCol \<noteq> -1
           then (if whiteKingRow \<ge> 6 then score4 + 50 else score4 - 100)
           else score4);
        let score6 =
          (if blackKingRow \<noteq> -1 \<and> blackKingCol \<noteq> -1
           then (if blackKingRow \<le> 1 then score5 - 50 else score5 + 100)
           else score5);
        Some (score6, state2)
      })"

definition evaluateScholarsMateDefense :: "GameState \<Rightarrow> int" where
  "evaluateScholarsMateDefense state =
     (if \<not> isWhiteTurn state then
        (let score1 = (if board state (2, 5) = BLACK_KNIGHT then 300 else 0) in
         if isScholarsMateThreat state then
           (let score2 = score1 - 1000 in
            if board state (3, 7) = WHITE_QUEEN \<and> board state (2, 5) = BLACK_KNIGHT
            then score2 + 2000 else score2)
         else score1)
      else 0)"

text \<open>
  The attack count of one piece in \<^verbatim>\<open>evaluateBoard\<close>: the loop over the target squares. The
  source writes it once for a white piece (targets lower case, flag set to true) and once
  for a black piece (targets upper case, flag set to false); \<open>isWhitePiece\<close> selects.
\<close>

fun evaluateBoard_attacks ::
  "(int \<times> int) list \<Rightarrow> GameState \<Rightarrow> bool \<Rightarrow> int \<Rightarrow> int \<Rightarrow> int \<Rightarrow> (int \<times> GameState) option" where
  "evaluateBoard_attacks [] state isWhitePiece row col count = Some (count, state)"
| "evaluateBoard_attacks ((tr, tc) # rest) state isWhitePiece row col count =
     (if board state (tr, tc) \<noteq> EMPTY
         \<and> (if isWhitePiece then islower (board state (tr, tc))
             else isupper (board state (tr, tc))) then
        (let originalTurn = isWhiteTurn state;
             state1 = state\<lparr>isWhiteTurn := isWhitePiece\<rparr>
         in do {
           (valid, state2) \<leftarrow> isValidMove state1 row col tr tc;
           let count1 = (if valid then count + 1 else count);
           evaluateBoard_attacks rest (state2\<lparr>isWhiteTurn := originalTurn\<rparr>)
             isWhitePiece row col count1
         })
      else evaluateBoard_attacks rest state isWhitePiece row col count)"

definition pieceValueOf :: "char \<Rightarrow> int" where
  "pieceValueOf piece =
     (let t = toupper piece in
      if t = WHITE_PAWN then PAWN_VALUE
      else if t = WHITE_KNIGHT then KNIGHT_VALUE
      else if t = WHITE_BISHOP then BISHOP_VALUE
      else if t = WHITE_ROOK then ROOK_VALUE
      else if t = WHITE_QUEEN then QUEEN_VALUE
      else 0)"

definition positionValueOf :: "char \<Rightarrow> int \<Rightarrow> int \<Rightarrow> int" where
  "positionValueOf piece row col =
     (let t = toupper piece in
      if t = WHITE_PAWN then tableAt pawnPositionValues row col
      else if t = WHITE_KNIGHT then tableAt knightPositionValues row col
      else if t = WHITE_BISHOP then tableAt bishopPositionValues row col
      else if t = WHITE_ROOK then tableAt rookPositionValues row col
      else if t = WHITE_QUEEN then tableAt queenPositionValues row col
      else if t = WHITE_KING then tableAt kingPositionValues row col
      else 0)"

text \<open>
  The main loop of \<^verbatim>\<open>evaluateBoard\<close> with its accumulators \<^verbatim>\<open>score\<close>, \<^verbatim>\<open>attackCount[0]\<close>
  and \<^verbatim>\<open>attackCount[1]\<close>.
\<close>

fun evaluateBoard_loop ::
  "(int \<times> int) list \<Rightarrow> GameState \<Rightarrow> int \<Rightarrow> int \<Rightarrow> int \<Rightarrow> ((int \<times> int \<times> int) \<times> GameState) option" where
  "evaluateBoard_loop [] state score attackWhite attackBlack =
     Some ((score, attackWhite, attackBlack), state)"
| "evaluateBoard_loop ((row, col) # rest) state score attackWhite attackBlack =
     (let piece = board state (row, col) in
      if piece = EMPTY then evaluateBoard_loop rest state score attackWhite attackBlack
      else
        (let pieceValue = pieceValueOf piece;
             positionValue = positionValueOf piece row col;
             isWhitePiece = isupper piece
         in
         if isWhitePiece then
           do {
             let score1 = score + (pieceValue + positionValue);
             (attackWhite1, state1) \<leftarrow>
               evaluateBoard_attacks squares state True row col attackWhite;
             (underAttack, state2) \<leftarrow> isPieceUnderAttack state1 row col;
             let score2 = (if underAttack then score1 - pieceValue div 3 else score1);
             evaluateBoard_loop rest state2 score2 attackWhite1 attackBlack
           }
         else
           do {
             let score1 = score - (pieceValue + positionValue);
             (attackBlack1, state1) \<leftarrow>
               evaluateBoard_attacks squares state False row col attackBlack;
             (underAttack, state2) \<leftarrow> isPieceUnderAttack state1 row col;
             let score2 = (if underAttack then score1 + pieceValue div 3 else score1);
             evaluateBoard_loop rest state2 score2 attackWhite attackBlack1
           }))"

definition centerBonus :: "GameState \<Rightarrow> int \<Rightarrow> int" where
  "centerBonus state score =
     foldl (\<lambda>sc sq. if isupper (board state sq) then sc + 20
                     else if islower (board state sq) then sc - 20 else sc)
       score [(3, 3), (3, 4), (4, 3), (4, 4)]"

text \<open>
  \<^verbatim>\<open>evaluateBoard\<close> reads and writes the global cache, so it takes the cache and returns it
  next to the score.
\<close>

definition evaluateBoard ::
  "EvalCache \<Rightarrow> GameState \<Rightarrow> ((int \<times> EvalCache) \<times> GameState) option" where
  "evaluateBoard cache state =
     (let cachedEval = getCachedEvaluation cache state in
      if cachedEval \<noteq> INT_MIN then Some ((cachedEval, cache), state)
      else do {
        ((score, attackWhite, attackBlack), state1) \<leftarrow> evaluateBoard_loop squares state 0 0 0;
        let score1 = centerBonus state1 score;
        let score2 = score1 + (attackWhite - attackBlack) * 2;
        let score3 = score2 + evaluatePawnStructure state1;
        (kingSafety, state2) \<leftarrow> evaluateKingSafety state1;
        let score4 = score3 + kingSafety;
        (whiteInCheck, state3) \<leftarrow> isInCheck state2 True;
        let score5 = (if whiteInCheck then score4 - 200 else score4);
        (blackInCheck, state4) \<leftarrow> isInCheck state3 False;
        let score6 = (if blackInCheck then score5 + 200 else score5);
        let score7 = score6 + evaluateScholarsMateDefense state4;
        Some ((score7, cacheEvaluation cache state4 score7), state4)
      })"

section \<open>The search\<close>

text \<open>
  How a loop of \<^verbatim>\<open>quiescence\<close> ends: with a \<^verbatim>\<open>return\<close> of the function, or by running to
  its end with the window it has reached.
\<close>

datatype loopExit = Returned int | Completed int int

text \<open>
  The recursion of \<^verbatim>\<open>quiescence\<close> and \<^verbatim>\<open>minimax\<close> carries no bound of its own in the
  model: \<open>fuel\<close> bounds the depth of the call stack, and a call that needs a deeper stack
  is \<open>None\<close>. The loops take the recursive call as the argument \<open>recurse\<close>.
\<close>

type_synonym searchResult = "((int \<times> EvalCache) \<times> GameState) option"

fun quiescence_to ::
  "(EvalCache \<Rightarrow> GameState \<Rightarrow> int \<Rightarrow> int \<Rightarrow> bool \<Rightarrow> searchResult)
   \<Rightarrow> (int \<times> int) list \<Rightarrow> EvalCache \<Rightarrow> GameState \<Rightarrow> int \<Rightarrow> int \<Rightarrow> bool \<Rightarrow> int \<Rightarrow> int
   \<Rightarrow> ((loopExit \<times> EvalCache) \<times> GameState) option" where
  "quiescence_to recurse [] cache state alpha beta isMaximizingPlayer fromRow fromCol =
     Some ((Completed alpha beta, cache), state)"
| "quiescence_to recurse ((toRow, toCol) # rest) cache state alpha beta isMaximizingPlayer
       fromRow fromCol =
     (if board state (toRow, toCol) \<noteq> EMPTY
         \<and> ((isMaximizingPlayer \<and> islower (board state (toRow, toCol)))
             \<or> (\<not> isMaximizingPlayer \<and> isupper (board state (toRow, toCol)))) then
        do {
          (valid, state1) \<leftarrow> isValidMove state fromRow fromCol toRow toCol;
          if valid then
            (let tempPiece = board state1 (toRow, toCol);
                 state2 = setSquare state1 toRow toCol (board state1 (fromRow, fromCol));
                 state3 = setSquare state2 fromRow fromCol EMPTY
             in do {
               ((score, cache1), state4) \<leftarrow>
                 recurse cache state3 alpha beta (\<not> isMaximizingPlayer);
               let state5 = setSquare state4 fromRow fromCol (board state4 (toRow, toCol));
               let state6 = setSquare state5 toRow toCol tempPiece;
               if isMaximizingPlayer then
                 (if score \<ge> beta then Some ((Returned beta, cache1), state6)
                  else quiescence_to recurse rest cache1 state6
                         (if score > alpha then score else alpha) beta
                         isMaximizingPlayer fromRow fromCol)
               else
                 (if score \<le> alpha then Some ((Returned alpha, cache1), state6)
                  else quiescence_to recurse rest cache1 state6
                         alpha (if score < beta then score else beta)
                         isMaximizingPlayer fromRow fromCol)
             })
          else quiescence_to recurse rest cache state1 alpha beta isMaximizingPlayer
                 fromRow fromCol
        }
      else quiescence_to recurse rest cache state alpha beta isMaximizingPlayer
             fromRow fromCol)"

fun quiescence_from ::
  "(EvalCache \<Rightarrow> GameState \<Rightarrow> int \<Rightarrow> int \<Rightarrow> bool \<Rightarrow> searchResult)
   \<Rightarrow> (int \<times> int) list \<Rightarrow> EvalCache \<Rightarrow> GameState \<Rightarrow> int \<Rightarrow> int \<Rightarrow> bool
   \<Rightarrow> ((loopExit \<times> EvalCache) \<times> GameState) option" where
  "quiescence_from recurse [] cache state alpha beta isMaximizingPlayer =
     Some ((Completed alpha beta, cache), state)"
| "quiescence_from recurse ((fromRow, fromCol) # rest) cache state alpha beta
       isMaximizingPlayer =
     (let piece = board state (fromRow, fromCol) in
      if (isMaximizingPlayer \<and> isupper piece) \<or> (\<not> isMaximizingPlayer \<and> islower piece) then
        do {
          ((exit, cache1), state1) \<leftarrow>
            quiescence_to recurse squares cache state alpha beta isMaximizingPlayer
              fromRow fromCol;
          case exit of
            Returned v \<Rightarrow> Some ((Returned v, cache1), state1)
          | Completed alpha1 beta1 \<Rightarrow>
              quiescence_from recurse rest cache1 state1 alpha1 beta1 isMaximizingPlayer
        }
      else quiescence_from recurse rest cache state alpha beta isMaximizingPlayer)"

primrec quiescence ::
  "nat \<Rightarrow> EvalCache \<Rightarrow> GameState \<Rightarrow> int \<Rightarrow> int \<Rightarrow> bool \<Rightarrow> searchResult" where
  "quiescence 0 cache state alpha beta isMaximizingPlayer = None"
| "quiescence (Suc fuel) cache state alpha beta isMaximizingPlayer =
     do {
       ((standPat, cache1), state1) \<leftarrow> evaluateBoard cache state;
       if isMaximizingPlayer \<and> standPat \<ge> beta then Some ((beta, cache1), state1)
       else if \<not> isMaximizingPlayer \<and> standPat \<le> alpha then Some ((alpha, cache1), state1)
       else
         (let alpha1 = (if isMaximizingPlayer \<and> alpha < standPat then standPat else alpha);
              beta1 = (if \<not> isMaximizingPlayer \<and> beta > standPat then standPat else beta)
          in do {
            ((exit, cache2), state2) \<leftarrow>
              quiescence_from (quiescence fuel) squares cache1 state1 alpha1 beta1
                isMaximizingPlayer;
            case exit of
              Returned v \<Rightarrow> Some ((v, cache2), state2)
            | Completed alpha2 beta2 \<Rightarrow>
                Some ((if isMaximizingPlayer then alpha2 else beta2, cache2), state2)
          })
     }"

text \<open>
  The exchange sort of \<^verbatim>\<open>minimax\<close> on the parallel arrays, descending by score: a swap of
  entries \<open>i\<close> and \<open>j\<close> swaps the move and its score together.
\<close>

definition sortMoves :: "MoveList \<Rightarrow> MoveList" where
  "sortMoves moveList =
     foldl (\<lambda>ml i.
        foldl (\<lambda>ml j. if snd (ml ! j) > snd (ml ! i) then ml[i := ml ! j, j := ml ! i] else ml)
          ml [i + 1 ..< length moveList])
       moveList [0 ..< length moveList - 1]"

fun minimax_loop ::
  "(EvalCache \<Rightarrow> GameState \<Rightarrow> int \<Rightarrow> int \<Rightarrow> int \<Rightarrow> bool \<Rightarrow> searchResult)
   \<Rightarrow> MoveList \<Rightarrow> EvalCache \<Rightarrow> GameState \<Rightarrow> int \<Rightarrow> int \<Rightarrow> int \<Rightarrow> bool \<Rightarrow> int
   \<Rightarrow> searchResult" where
  "minimax_loop recurse [] cache state depth alpha beta isMaximizingPlayer bestScore =
     Some ((bestScore, cache), state)"
| "minimax_loop recurse (((fromRow, fromCol, toRow, toCol), moveScore) # rest) cache state
       depth alpha beta isMaximizingPlayer bestScore =
     (let tempPiece = board state (toRow, toCol);
          state1 = setSquare state toRow toCol (board state (fromRow, fromCol));
          state2 = setSquare state1 fromRow fromCol EMPTY
      in do {
        ((score, cache1), state3) \<leftarrow>
          recurse cache state2 (depth - 1) alpha beta (\<not> isMaximizingPlayer);
        let state4 = setSquare state3 fromRow fromCol (board state3 (toRow, toCol));
        let state5 = setSquare state4 toRow toCol tempPiece;
        let bestScore1 =
          (if isMaximizingPlayer then (if score > bestScore then score else bestScore)
           else (if score < bestScore then score else bestScore));
        let alpha1 =
          (if isMaximizingPlayer then (if alpha > bestScore1 then alpha else bestScore1)
           else alpha);
        let beta1 =
          (if isMaximizingPlayer then beta
           else (if beta < bestScore1 then beta else bestScore1));
        if beta1 \<le> alpha1 then Some ((bestScore1, cache1), state5)
        else minimax_loop recurse rest cache1 state5 depth alpha1 beta1
               isMaximizingPlayer bestScore1
      })"

primrec minimax ::
  "nat \<Rightarrow> EvalCache \<Rightarrow> GameState \<Rightarrow> int \<Rightarrow> int \<Rightarrow> int \<Rightarrow> bool \<Rightarrow> searchResult" where
  "minimax 0 cache state depth alpha beta isMaximizingPlayer = None"
| "minimax (Suc fuel) cache state depth alpha beta isMaximizingPlayer =
     (if depth = 0 then quiescence fuel cache state alpha beta isMaximizingPlayer
      else do {
        (moveList, state1) \<leftarrow> generateAllMoves state;
        if length moveList = 0 then
          do {
            (check, state2) \<leftarrow> isInCheck state1 isMaximizingPlayer;
            Some ((if check then -100000 else 0, cache), state2)
          }
        else
          minimax_loop (minimax fuel) (sortMoves moveList) cache state1 depth alpha beta
            isMaximizingPlayer (if isMaximizingPlayer then -100000 else 100000)
      })"

section \<open>Predicates used in the statements\<close>

text \<open>
  A call that returns a value, and a call that returns a value and leaves the game state
  \<open>s\<close> behind.
\<close>

definition returns :: "'a option \<Rightarrow> bool" where
  "returns m = (\<exists>v. m = Some v)"

definition returnsTo :: "GameState \<Rightarrow> ('a \<times> GameState) option \<Rightarrow> bool" where
  "returnsTo s m = (\<exists>v. m = Some (v, s))"

text \<open>The legality query accepts the move, and the state is as before the query.\<close>

definition accepted :: "GameState \<Rightarrow> int \<Rightarrow> int \<Rightarrow> int \<Rightarrow> int \<Rightarrow> bool" where
  "accepted state fromRow fromCol toRow toCol =
     (isValidMove state fromRow fromCol toRow toCol = Some (True, state))"

definition inCheck :: "GameState \<Rightarrow> bool \<Rightarrow> bool" where
  "inCheck state isWhiteKing = (isInCheck state isWhiteKing = Some (True, state))"

definition attacked :: "GameState \<Rightarrow> int \<Rightarrow> int \<Rightarrow> bool \<Rightarrow> bool" where
  "attacked state row col byWhite = (isSquareAttacked state row col byWhite = Some (True, state))"

text \<open>The number of squares of the board that hold a given piece, and that hold any piece.\<close>

definition countPiece :: "GameState \<Rightarrow> char \<Rightarrow> nat" where
  "countPiece state piece = length (filter (\<lambda>sq. board state sq = piece) squares)"

definition pieceCount :: "GameState \<Rightarrow> nat" where
  "pieceCount state = length (filter (\<lambda>sq. board state sq \<noteq> EMPTY) squares)"

text \<open>
  A call leaves the state as it found it: if it returns, the state it returns is \<open>state\<close>;
  and if \<open>mustReturn\<close> holds, it does return.
\<close>

definition framed :: "bool \<Rightarrow> GameState \<Rightarrow> ('a \<times> GameState) option \<Rightarrow> bool" where
  "framed mustReturn state m =
     (case m of None \<Rightarrow> \<not> mustReturn | Some (v, state') \<Rightarrow> state' = state)"

section \<open>Facts about the character predicates\<close>

lemma char_eq_nat: "(c = d) = ((of_char c :: nat) = of_char d)"
  by (simp add: of_char_eq_iff)

lemma of_char_toupper:
  "(of_char (toupper c) :: nat) = (if islower c then of_char c - 32 else of_char c)"
  by (auto simp: toupper_def islower_def of_char_of)

lemma upper_not_lower: "isupper c \<Longrightarrow> \<not> islower c"
  by (simp add: isupper_def islower_def)

lemma upper_not_empty: "isupper c \<Longrightarrow> c \<noteq> EMPTY"
  by (auto simp: isupper_def)

lemma lower_not_empty: "islower c \<Longrightarrow> c \<noteq> EMPTY"
  by (auto simp: islower_def)

lemma toupper_cases:
  "toupper c = CHR ''K'' \<longleftrightarrow> c = CHR ''K'' \<or> c = CHR ''k''"
  "toupper c = CHR ''Q'' \<longleftrightarrow> c = CHR ''Q'' \<or> c = CHR ''q''"
  "toupper c = CHR ''R'' \<longleftrightarrow> c = CHR ''R'' \<or> c = CHR ''r''"
  "toupper c = CHR ''B'' \<longleftrightarrow> c = CHR ''B'' \<or> c = CHR ''b''"
  "toupper c = CHR ''N'' \<longleftrightarrow> c = CHR ''N'' \<or> c = CHR ''n''"
  "toupper c = CHR ''P'' \<longleftrightarrow> c = CHR ''P'' \<or> c = CHR ''p''"
  by (auto simp: char_eq_nat of_char_toupper islower_def)

lemma letter_case:
  "isupper CHR ''K''" "isupper CHR ''Q''" "isupper CHR ''R''"
  "isupper CHR ''B''" "isupper CHR ''N''" "isupper CHR ''P''"
  "islower CHR ''k''" "islower CHR ''q''" "islower CHR ''r''"
  "islower CHR ''b''" "islower CHR ''n''" "islower CHR ''p''"
  "\<not> isupper EMPTY" "\<not> islower EMPTY"
  "\<not> islower CHR ''K''" "\<not> islower CHR ''Q''" "\<not> islower CHR ''R''"
  "\<not> islower CHR ''B''" "\<not> islower CHR ''N''" "\<not> islower CHR ''P''"
  "\<not> isupper CHR ''k''" "\<not> isupper CHR ''q''" "\<not> isupper CHR ''r''"
  "\<not> isupper CHR ''b''" "\<not> isupper CHR ''n''" "\<not> isupper CHR ''p''"
  by (simp_all add: isupper_def islower_def)

section \<open>The legality functions return and restore the state\<close>

lemma returnsTo_Some: "s' = s \<Longrightarrow> returnsTo s (Some (v, s'))"
  by (simp add: returnsTo_def)

lemma returnsTo_bind:
  "returnsTo s' m \<Longrightarrow> (\<And>v. returnsTo s (g v s')) \<Longrightarrow> returnsTo s (m \<bind> case_prod g)"
  by (auto simp: returnsTo_def)

lemma returnsTo_bind_pure:
  "returns m \<Longrightarrow> (\<And>v. returnsTo s (f v)) \<Longrightarrow> returnsTo s (m \<bind> f)"
  by (auto simp: returnsTo_def returns_def)

lemma returnsTo_if:
  "(c \<Longrightarrow> returnsTo s a) \<Longrightarrow> (\<not> c \<Longrightarrow> returnsTo s b) \<Longrightarrow> returnsTo s (if c then a else b)"
  by simp

lemma returnsTo_case_prod:
  "(\<And>a b. p = (a, b) \<Longrightarrow> returnsTo s (g a b)) \<Longrightarrow> returnsTo s (case_prod g p)"
  by (cases p) simp

lemma returns_Some: "returns (Some v)"
  by (simp add: returns_def)

lemma returns_if:
  "(c \<Longrightarrow> returns a) \<Longrightarrow> (\<not> c \<Longrightarrow> returns b) \<Longrightarrow> returns (if c then a else b)"
  by simp

lemma returns_bind: "returns m \<Longrightarrow> (\<And>v. returns (f v)) \<Longrightarrow> returns (m \<bind> f)"
  by (auto simp: returns_def)

lemmas returnsTo_intros =
  returnsTo_Some returnsTo_if returnsTo_case_prod returns_Some returns_if

lemma setSquare_restore:
  "setSquare (setSquare (setSquare (setSquare s tr tc (board s (fr, fc))) fr fc EMPTY) fr fc
      (board (setSquare (setSquare s tr tc (board s (fr, fc))) fr fc EMPTY) (tr, tc)))
      tr tc (board s (tr, tc)) = s"
  by (cases "(fr, fc) = (tr, tc)") (auto simp: setSquare_def fun_upd_twist)

lemma rookPath_returns:
  assumes "rs \<in> {-1, 0, 1}" "cs \<in> {-1, 0, 1}" "rs \<noteq> 0 \<or> cs \<noteq> 0"
  shows "\<exists>v. rookPath s rs cs tr tc r c = Some v"
proof (induction "nat (if rs = 1 then 8 - r else if rs = -1 then r + 1
                       else if cs = 1 then 8 - c else c + 1)"
       arbitrary: r c rule: less_induct)
  case less
  show ?case
  proof (cases "(r \<noteq> tr \<or> c \<noteq> tc) \<and> \<not> (r < 0 \<or> r \<ge> 8 \<or> c < 0 \<or> c \<ge> 8)
                \<and> board s (r, c) = EMPTY")
    case True
    then have step: "rookPath s rs cs tr tc r c = rookPath s rs cs tr tc (r + rs) (c + cs)"
      by (subst rookPath.simps) auto
    have "\<exists>v. rookPath s rs cs tr tc (r + rs) (c + cs) = Some v"
      by (rule less.hyps) (use True assms in auto)
    with step show ?thesis by simp
  next
    case False
    then show ?thesis by (subst rookPath.simps) auto
  qed
qed

lemma isValidRookMove_returns: "returns (isValidRookMove s fr fc tr tc)"
  unfolding returns_def
  by (auto simp: isValidRookMove_def Let_def intro!: rookPath_returns)

lemma bishopPath_returns:
  assumes "rs \<in> {-1, 1}" "cs \<in> {-1, 1}"
  shows "\<exists>v. bishopPath s rs cs tr tc r c = Some v"
proof (induction "nat (if rs = 1 then 8 - r else r + 1)" arbitrary: r c rule: less_induct)
  case less
  show ?case
  proof (cases "(r \<noteq> tr \<and> c \<noteq> tc) \<and> \<not> (r < 0 \<or> r \<ge> 8 \<or> c < 0 \<or> c \<ge> 8)
                \<and> board s (r, c) = EMPTY")
    case True
    then have step: "bishopPath s rs cs tr tc r c = bishopPath s rs cs tr tc (r + rs) (c + cs)"
      by (subst bishopPath.simps) auto
    have "\<exists>v. bishopPath s rs cs tr tc (r + rs) (c + cs) = Some v"
      by (rule less.hyps) (use True assms in auto)
    with step show ?thesis by simp
  next
    case False
    then show ?thesis by (subst bishopPath.simps) auto
  qed
qed

lemma isValidBishopMove_returns: "returns (isValidBishopMove s fr fc tr tc)"
  unfolding returns_def
  by (auto simp: isValidBishopMove_def Let_def intro!: bishopPath_returns)

lemma isValidQueenMove_returns: "returns (isValidQueenMove s fr fc tr tc)"
  unfolding isValidQueenMove_def
  by (intro returns_bind returns_if returns_Some isValidRookMove_returns
        isValidBishopMove_returns)

lemma isSquareAttacked_switch_returns:
  "returns (isSquareAttacked_switch s piece i j row col)"
  unfolding isSquareAttacked_switch_def Let_def
  by (intro returns_if returns_Some isValidRookMove_returns
        isValidBishopMove_returns isValidQueenMove_returns)

lemma isSquareAttacked_loop_frame:
  "returnsTo s (isSquareAttacked_loop sqs s row col byWhite)"
proof (induction sqs)
  case Nil
  show ?case by (simp add: returnsTo_Some)
next
  case (Cons sq sqs)
  obtain i j where sq: "sq = (i, j)" by (cases sq)
  show ?case
    unfolding sq isSquareAttacked_loop.simps Let_def
    by (intro returnsTo_intros returnsTo_bind_pure[OF isSquareAttacked_switch_returns])
       (simp_all add: Cons.IH)
qed

lemma isSquareAttacked_frame: "returnsTo s (isSquareAttacked s row col byWhite)"
  by (simp add: isSquareAttacked_def isSquareAttacked_loop_frame)

lemma isInCheck_frame: "returnsTo s (isInCheck s w)"
  unfolding isInCheck_def Let_def
  by (intro returnsTo_intros isSquareAttacked_frame) simp_all

lemma castlingPathEmpty_returns:
  "returns (castlingPathEmpty s r 7 1 5)" "returns (castlingPathEmpty s r 0 (-1) 3)"
proof -
  have k7: "returns (castlingPathEmpty s r 7 1 7)"
    by (subst castlingPathEmpty.simps) (simp add: returns_Some)
  have k6: "returns (castlingPathEmpty s r 7 1 6)"
    by (subst castlingPathEmpty.simps) (simp add: k7 returns_Some)
  show "returns (castlingPathEmpty s r 7 1 5)"
    by (subst castlingPathEmpty.simps) (simp add: k6 returns_Some)
  have q0: "returns (castlingPathEmpty s r 0 (-1) 0)"
    by (subst castlingPathEmpty.simps) (simp add: returns_Some)
  have q1: "returns (castlingPathEmpty s r 0 (-1) 1)"
    by (subst castlingPathEmpty.simps) (simp add: q0 returns_Some)
  have q2: "returns (castlingPathEmpty s r 0 (-1) 2)"
    by (subst castlingPathEmpty.simps) (simp add: q1 returns_Some)
  show "returns (castlingPathEmpty s r 0 (-1) 3)"
    by (subst castlingPathEmpty.simps) (simp add: q2 returns_Some)
qed

lemma castlingPathSafe_step:
  "col \<noteq> endCol + step \<Longrightarrow> returnsTo s (castlingPathSafe s r endCol step w (col + step))
   \<Longrightarrow> returnsTo s (castlingPathSafe s r endCol step w col)"
  by (subst castlingPathSafe.simps)
     (auto intro!: returnsTo_bind[OF isSquareAttacked_frame] returnsTo_intros)

lemma castlingPathSafe_frame:
  "returnsTo s (castlingPathSafe s r 6 1 w 4)"
  "returnsTo s (castlingPathSafe s r 2 (-1) w 4)"
proof -
  have e7: "returnsTo s (castlingPathSafe s r 6 1 w 7)"
    by (subst castlingPathSafe.simps) (simp add: returnsTo_Some)
  have e6: "returnsTo s (castlingPathSafe s r 6 1 w 6)"
    by (rule castlingPathSafe_step) (simp_all add: e7)
  have e5: "returnsTo s (castlingPathSafe s r 6 1 w 5)"
    by (rule castlingPathSafe_step) (simp_all add: e6)
  show "returnsTo s (castlingPathSafe s r 6 1 w 4)"
    by (rule castlingPathSafe_step) (simp_all add: e5)
  have d1: "returnsTo s (castlingPathSafe s r 2 (-1) w 1)"
    by (subst castlingPathSafe.simps) (simp add: returnsTo_Some)
  have d2: "returnsTo s (castlingPathSafe s r 2 (-1) w 2)"
    by (rule castlingPathSafe_step) (simp_all add: d1)
  have d3: "returnsTo s (castlingPathSafe s r 2 (-1) w 3)"
    by (rule castlingPathSafe_step) (simp_all add: d2)
  show "returnsTo s (castlingPathSafe s r 2 (-1) w 4)"
    by (rule castlingPathSafe_step) (simp_all add: d3)
qed

lemma isValidCastling_frame: "returnsTo s (isValidCastling s fr fc tr tc)"
proof -
  have k: "tc > 4 \<Longrightarrow> abs (tc - 4) = 2 \<Longrightarrow> tc = 6" for tc :: int by arith
  have q: "\<not> tc > 4 \<Longrightarrow> abs (tc - 4) = 2 \<Longrightarrow> tc = 2" for tc :: int by arith
  have pe: "fc = 4 \<Longrightarrow> returns (castlingPathEmpty s fr (if tc > fc then 7 else 0)
                (if tc > fc then 1 else -1) (fc + (if tc > fc then 1 else -1)))"
    by (simp add: castlingPathEmpty_returns)
  have ps: "fc = 4 \<Longrightarrow> abs (tc - fc) = 2 \<Longrightarrow>
            returnsTo s (castlingPathSafe s fr tc (if tc > fc then 1 else -1) w fc)" for w
    by (auto simp: castlingPathSafe_frame dest!: k q)
  show ?thesis
    unfolding isValidCastling_def Let_def
    by (intro returnsTo_intros returnsTo_bind[OF isInCheck_frame]
          returnsTo_bind_pure[OF pe] ps) simp_all
qed

lemma isValidKingMove_frame: "returnsTo s (isValidKingMove s fr fc tr tc)"
  unfolding isValidKingMove_def
  by (intro returnsTo_intros isValidCastling_frame) simp_all

lemma div_abs_sign: "(d::int) \<noteq> 0 \<Longrightarrow> d div abs d = (if d > 0 then 1 else -1)"
  by (cases "d > 0") (auto simp: div_minus_right zdiv_zminus1_eq_if)

lemma pinScan_returns_step:
  assumes "sr \<in> {-1, 0, 1}" "sc \<in> {-1, 0, 1}" "sr \<noteq> 0 \<or> sc \<noteq> 0"
  shows "returns (pinScan s w sr sc r c)"
proof (induction "nat (if sr = 1 then 8 - r else if sr = -1 then r + 1
                       else if sc = 1 then 8 - c else c + 1)"
       arbitrary: r c rule: less_induct)
  case less
  show ?case
  proof (cases "(r \<ge> 0 \<and> r < 8 \<and> c \<ge> 0 \<and> c < 8) \<and> board s (r, c) = EMPTY")
    case True
    then have step: "pinScan s w sr sc r c = pinScan s w sr sc (r + sr) (c + sc)"
      by (subst pinScan.simps) auto
    have "returns (pinScan s w sr sc (r + sr) (c + sc))"
      by (rule less.hyps) (use True assms in auto)
    with step show ?thesis by simp
  next
    case False
    then show ?thesis by (subst pinScan.simps) (auto simp: returns_def Let_def)
  qed
qed

lemma pinScan_returns_occupied:
  "board s (r, c) \<noteq> EMPTY \<Longrightarrow> returns (pinScan s w sr sc r c)"
  by (subst pinScan.simps) (auto simp: returns_def Let_def)

lemma step_sgn: "(if (d::int) \<noteq> 0 then d div abs d else 0) = sgn d"
  by (simp add: div_abs_sign sgn_if)

lemma returns_case_prod:
  "(\<And>a b. p = (a, b) \<Longrightarrow> returns (g a b)) \<Longrightarrow> returns (case_prod g p)"
  by (cases p) simp

lemma getPinInfo_returns: "returns (getPinInfo s row col)"
proof -
  have scan: "returns (pinScan s w (sgn (kr - row)) (sgn (kc - col))
                 (kr + sgn (kr - row)) (kc + sgn (kc - col)))"
    if "board s (row, col) \<noteq> EMPTY" for w kr kc
  proof (cases "kr - row = 0 \<and> kc - col = 0")
    case True
    with that show ?thesis by (simp add: pinScan_returns_occupied)
  next
    case False
    show ?thesis
    proof (rule pinScan_returns_step)
      show "sgn (kr - row) \<in> {-1, 0, 1}" by (simp add: sgn_if)
      show "sgn (kc - col) \<in> {-1, 0, 1}" by (simp add: sgn_if)
      show "sgn (kr - row) \<noteq> 0 \<or> sgn (kc - col) \<noteq> 0" using False by (simp add: sgn_if)
    qed
  qed
  show ?thesis
    unfolding getPinInfo_def Let_def step_sgn
    by (intro returns_if returns_Some returns_case_prod scan) simp
qed

lemma doesMovePutKingInCheck_frame:
  "returnsTo s (doesMovePutKingInCheck s fr fc tr tc)"
  unfolding doesMovePutKingInCheck_def Let_def
  by (intro returnsTo_intros returnsTo_bind[OF isInCheck_frame])
     (simp add: setSquare_restore)

lemma isValidMove_checks_frame:
  "returnsTo s (isValidMove_checks v s fr fc tr tc)"
  unfolding isValidMove_checks_def
  by (intro returnsTo_intros returnsTo_bind_pure[OF getPinInfo_returns]
        returnsTo_bind[OF doesMovePutKingInCheck_frame]) simp_all

lemma isValidMove_frame: "returnsTo s (isValidMove s fr fc tr tc)"
  unfolding isValidMove_def Let_def
  by (intro returnsTo_intros isValidMove_checks_frame
        returnsTo_bind[OF isValidKingMove_frame]
        returnsTo_bind_pure[OF isValidRookMove_returns]
        returnsTo_bind_pure[OF isValidBishopMove_returns]
        returnsTo_bind_pure[OF isValidQueenMove_returns]) simp_all

section \<open>What the search loops compute\<close>

lemma isValidMove_accepted:
  "isValidMove s fr fc tr tc = Some (accepted s fr fc tr tc, s)"
  using isValidMove_frame[of s fr fc tr tc] by (auto simp: returnsTo_def accepted_def)

lemma isInCheck_inCheck: "isInCheck s w = Some (inCheck s w, s)"
  using isInCheck_frame[of s w] by (auto simp: returnsTo_def inCheck_def)

lemma isSquareAttacked_attacked:
  "isSquareAttacked s row col w = Some (attacked s row col w, s)"
  using isSquareAttacked_frame[of s row col w] by (auto simp: returnsTo_def attacked_def)

lemma set_squares: "set squares = {0..7} \<times> {0..7}"
  by (auto simp: squares_def)

lemma isValidMove_rejects:
  "fr < 0 \<or> fr \<ge> 8 \<or> fc < 0 \<or> fc \<ge> 8 \<or> tr < 0 \<or> tr \<ge> 8 \<or> tc < 0 \<or> tc \<ge> 8
     \<Longrightarrow> isValidMove s fr fc tr tc = Some (False, s)"
  "board s (fr, fc) = EMPTY \<Longrightarrow> isValidMove s fr fc tr tc = Some (False, s)"
  "isWhiteTurn s \<Longrightarrow> \<not> isupper (board s (fr, fc))
     \<Longrightarrow> isValidMove s fr fc tr tc = Some (False, s)"
  "\<not> isWhiteTurn s \<Longrightarrow> isupper (board s (fr, fc))
     \<Longrightarrow> isValidMove s fr fc tr tc = Some (False, s)"
  "isWhiteTurn s \<Longrightarrow> isupper (board s (tr, tc))
     \<Longrightarrow> isValidMove s fr fc tr tc = Some (False, s)"
  "\<not> isWhiteTurn s \<Longrightarrow> islower (board s (tr, tc))
     \<Longrightarrow> isValidMove s fr fc tr tc = Some (False, s)"
  "toupper (board s (fr, fc)) \<noteq> WHITE_PAWN \<Longrightarrow> toupper (board s (fr, fc)) \<noteq> WHITE_ROOK
     \<Longrightarrow> toupper (board s (fr, fc)) \<noteq> WHITE_KNIGHT
     \<Longrightarrow> toupper (board s (fr, fc)) \<noteq> WHITE_BISHOP
     \<Longrightarrow> toupper (board s (fr, fc)) \<noteq> WHITE_QUEEN
     \<Longrightarrow> toupper (board s (fr, fc)) \<noteq> WHITE_KING
     \<Longrightarrow> isValidMove s fr fc tr tc = Some (False, s)"
  by (simp_all add: isValidMove_def Let_def)

lemma accepted_in_bounds:
  assumes "accepted s fr fc tr tc"
  shows "0 \<le> fr \<and> fr < 8 \<and> 0 \<le> fc \<and> fc < 8 \<and> 0 \<le> tr \<and> tr < 8 \<and> 0 \<le> tc \<and> tc < 8"
proof (rule ccontr)
  assume "\<not> ?thesis"
  then have "isValidMove s fr fc tr tc = Some (False, s)"
    by (intro isValidMove_rejects(1)) linarith
  with assms show False by (simp add: accepted_def)
qed

lemma accepted_piece:
  assumes "accepted s fr fc tr tc"
  shows "board s (fr, fc) \<noteq> EMPTY"
    and "isWhiteTurn s \<Longrightarrow> isupper (board s (fr, fc))"
    and "\<not> isWhiteTurn s \<Longrightarrow> \<not> isupper (board s (fr, fc))"
    and "isWhiteTurn s \<Longrightarrow> \<not> isupper (board s (tr, tc))"
    and "\<not> isWhiteTurn s \<Longrightarrow> \<not> islower (board s (tr, tc))"
    and "toupper (board s (fr, fc)) \<in> {WHITE_PAWN, WHITE_ROOK, WHITE_KNIGHT, WHITE_BISHOP,
           WHITE_QUEEN, WHITE_KING}"
proof -
  have v: "isValidMove s fr fc tr tc \<noteq> Some (False, s)"
    using assms by (simp add: accepted_def)
  show "board s (fr, fc) \<noteq> EMPTY"
    using v isValidMove_rejects(2) by blast
  show "isWhiteTurn s \<Longrightarrow> isupper (board s (fr, fc))"
    using v isValidMove_rejects(3) by blast
  show "\<not> isWhiteTurn s \<Longrightarrow> \<not> isupper (board s (fr, fc))"
    using v isValidMove_rejects(4) by blast
  show "isWhiteTurn s \<Longrightarrow> \<not> isupper (board s (tr, tc))"
    using v isValidMove_rejects(5) by blast
  show "\<not> isWhiteTurn s \<Longrightarrow> \<not> islower (board s (tr, tc))"
    using v isValidMove_rejects(6) by blast
  show "toupper (board s (fr, fc)) \<in> {WHITE_PAWN, WHITE_ROOK, WHITE_KNIGHT, WHITE_BISHOP,
           WHITE_QUEEN, WHITE_KING}"
    using v isValidMove_rejects(7)[of s fr fc tr tc] by auto
qed

lemma accepted_own:
  assumes "accepted s fr fc tr tc"
  shows "(isWhiteTurn s \<and> isupper (board s (fr, fc)))
         \<or> (\<not> isWhiteTurn s \<and> islower (board s (fr, fc)))"
proof (cases "isWhiteTurn s")
  case True
  then show ?thesis using accepted_piece(2)[OF assms] by simp
next
  case False
  have "\<not> isupper (board s (fr, fc))" using accepted_piece(3)[OF assms False] .
  moreover have "toupper (board s (fr, fc)) \<in> {WHITE_PAWN, WHITE_ROOK, WHITE_KNIGHT,
      WHITE_BISHOP, WHITE_QUEEN, WHITE_KING}"
    using accepted_piece(6)[OF assms] .
  ultimately have "islower (board s (fr, fc))"
    by (auto simp: toupper_cases letter_case)
  with False show ?thesis by simp
qed

lemma accepted_squares:
  "accepted s fr fc tr tc \<Longrightarrow> (fr, fc) \<in> set squares \<and> (tr, tc) \<in> set squares"
  using accepted_in_bounds[of s fr fc tr tc] by (auto simp: set_squares)

lemma validMoveFrom_loop_eq:
  "validMoveFrom_loop tos s fr fc
     = Some ((\<exists>t \<in> set tos. accepted s fr fc (fst t) (snd t)), s)"
  by (induction tos) (auto simp: isValidMove_accepted)

lemma isStalemate_loop_eq:
  "isStalemate_loop froms s
     = Some ((\<exists>f \<in> set froms. \<exists>t \<in> set squares. accepted s (fst f) (snd f) (fst t) (snd t)), s)"
proof (induction froms)
  case Nil
  show ?case by simp
next
  case (Cons f froms)
  obtain fr fc where f: "f = (fr, fc)" by (cases f)
  have skip: "\<not> (\<exists>t \<in> set squares. accepted s fr fc (fst t) (snd t))"
    if "\<not> ((isWhiteTurn s \<and> isupper (board s (fr, fc)))
            \<or> (\<not> isWhiteTurn s \<and> islower (board s (fr, fc))))"
    using that accepted_own[of s fr fc] by blast
  show ?case
    using skip by (auto simp: f Let_def Cons.IH validMoveFrom_loop_eq)
qed

lemma accepted_on_squares:
  "(\<exists>f \<in> set squares. \<exists>t \<in> set squares. accepted s (fst f) (snd f) (fst t) (snd t))
     = (\<exists>fr fc tr tc. accepted s fr fc tr tc)" (is "?L = ?R")
proof
  assume ?L
  then show ?R by blast
next
  assume ?R
  then obtain fr fc tr tc where a: "accepted s fr fc tr tc" by blast
  have "(fr, fc) \<in> set squares" "(tr, tc) \<in> set squares"
    using accepted_squares[OF a] by simp_all
  moreover have "accepted s (fst (fr, fc)) (snd (fr, fc)) (fst (tr, tc)) (snd (tr, tc))"
    using a by simp
  ultimately show ?L by blast
qed

lemma isStalemate_eq:
  "isStalemate s
     = Some (\<not> inCheck s (isWhiteTurn s) \<and> \<not> (\<exists>fr fc tr tc. accepted s fr fc tr tc), s)"
  unfolding isStalemate_def isInCheck_inCheck isStalemate_loop_eq accepted_on_squares
  by simp

lemma set_kingOffsets: "set kingOffsets = {-1..1} \<times> {-1..1}"
  by (auto simp: kingOffsets_def)

lemma accepted_moves: "accepted s fr fc tr tc \<Longrightarrow> (fr, fc) \<noteq> (tr, tc)"
  using accepted_piece(2,3,4,5)[of s fr fc tr tc] accepted_own[of s fr fc tr tc]
  by (cases "isWhiteTurn s") auto

lemma isCheckmate_kingLoop_eq:
  "isCheckmate_kingLoop offs s kr kc
     = Some ((\<exists>d \<in> set offs. accepted s kr kc (kr + fst d) (kc + snd d)), s)"
proof (induction offs)
  case Nil
  show ?case by simp
next
  case (Cons d offs)
  obtain dr dc where d: "d = (dr, dc)" by (cases d)
  have zero: "\<not> accepted s kr kc (kr + dr) (kc + dc)" if "dr = 0 \<and> dc = 0"
    using that accepted_moves[of s kr kc "kr + dr" "kc + dc"] by auto
  have oob: "\<not> accepted s kr kc (kr + dr) (kc + dc)"
    if "\<not> (kr + dr \<ge> 0 \<and> kr + dr < 8 \<and> kc + dc \<ge> 0 \<and> kc + dc < 8)"
    using that accepted_in_bounds[of s kr kc "kr + dr" "kc + dc"] by auto
  show ?case
    using zero oob by (auto simp: d Let_def Cons.IH isValidMove_accepted)
qed

lemma isCheckmate_pieceLoop_eq:
  "isCheckmate_pieceLoop froms s w
     = Some ((\<exists>f \<in> set froms.
                ((w \<and> isupper (board s f)) \<or> (\<not> w \<and> islower (board s f)))
                \<and> toupper (board s f) \<noteq> WHITE_KING
                \<and> (\<exists>t \<in> set squares. accepted s (fst f) (snd f) (fst t) (snd t))), s)"
proof (induction froms)
  case Nil
  show ?case by simp
next
  case (Cons f froms)
  obtain fr fc where f: "f = (fr, fc)" by (cases f)
  show ?case
    using Cons.IH by (auto simp: f Let_def validMoveFrom_loop_eq)
qed

lemma findKing_filter:
  "findKing sqs s k = (case filter (\<lambda>q. board s q = k) sqs of [] \<Rightarrow> (-1, -1) | q # _ \<Rightarrow> q)"
  by (induction sqs) auto

lemma findKing_unique:
  assumes "countPiece s k \<le> 1" "sq \<in> set squares" "board s sq = k"
  shows "findKing squares s k = sq"
proof -
  have mem: "sq \<in> set (filter (\<lambda>q. board s q = k) squares)"
    using assms by simp
  have len: "length (filter (\<lambda>q. board s q = k) squares) \<le> 1"
    using assms(1) by (simp add: countPiece_def)
  obtain q where q: "filter (\<lambda>q. board s q = k) squares = [q]"
    using mem len by (cases "filter (\<lambda>q. board s q = k) squares") auto
  with mem have "q = sq" by simp
  with q show ?thesis by (simp add: findKing_filter)
qed

text \<open>A king that is in check cannot castle, so an accepted king move is a single step.\<close>

lemma isValidCastling_not_in_check:
  assumes "isValidCastling s fr fc tr tc = Some (True, s')"
  shows "\<not> inCheck s (isupper (board s (fr, fc)))"
proof
  assume c: "inCheck s (isupper (board s (fr, fc)))"
  have "isValidCastling s fr fc tr tc = Some (False, s)"
  proof (cases "toupper (board s (fr, fc)) \<noteq> WHITE_KING
                \<or> fr \<noteq> (if isupper (board s (fr, fc)) then 7 else 0) \<or> fc \<noteq> 4")
    case True
    then show ?thesis
      unfolding isValidCastling_def Let_def by (simp only: if_True)
  next
    case g1: False
    show ?thesis
    proof (cases "abs (tc - fc) \<noteq> 2 \<or> tr \<noteq> fr")
      case True
      then show ?thesis
        unfolding isValidCastling_def Let_def by (simp only: g1 if_False if_True)
    next
      case g2: False
      show ?thesis
        unfolding isValidCastling_def Let_def
        by (simp only: g1 g2 if_False isInCheck_inCheck bind.bind_lunit prod.case c if_True)
    qed
  qed
  with assms show False by simp
qed

lemma isValidMove_checks_False: "isValidMove_checks False s fr fc tr tc = Some (False, s)"
  by (simp add: isValidMove_checks_def)

lemma accepted_king_step:
  assumes a: "accepted s fr fc tr tc"
    and k: "toupper (board s (fr, fc)) = WHITE_KING"
    and c: "inCheck s (isWhiteTurn s)"
  shows "abs (tr - fr) \<le> 1 \<and> abs (tc - fc) \<le> 1"
proof (rule ccontr)
  assume far: "\<not> ?thesis"
  have inb: "\<not> (fr < 0 \<or> fr \<ge> 8 \<or> fc < 0 \<or> fc \<ge> 8 \<or> tr < 0 \<or> tr \<ge> 8 \<or> tc < 0 \<or> tc \<ge> 8)"
    using accepted_in_bounds[OF a] by auto
  have w: "isupper (board s (fr, fc)) = isWhiteTurn s"
    using accepted_piece(2,3)[OF a] by blast
  have tw: "\<not> (isWhiteTurn s \<and> isupper (board s (tr, tc)))"
           "\<not> (\<not> isWhiteTurn s \<and> islower (board s (tr, tc)))"
    using accepted_piece(4,5)[OF a] by blast+
  obtain kv where kv: "isValidKingMove s fr fc tr tc = Some (kv, s)"
    using isValidKingMove_frame[of s fr fc tr tc] by (auto simp: returnsTo_def)
  have "\<not> kv"
  proof
    assume kv
    with kv far have "isValidCastling s fr fc tr tc = Some (True, s)"
      by (auto simp: isValidKingMove_def split: if_splits)
    from isValidCastling_not_in_check[OF this] c w show False by simp
  qed
  have "isValidMove s fr fc tr tc = Some (False, s)"
    unfolding isValidMove_def Let_def
    using inb accepted_piece(1)[OF a] w tw k kv \<open>\<not> kv\<close>
    by (simp add: isValidMove_checks_False)
  with a show False by (simp add: accepted_def)
qed

lemma isCheckmate_eq:
  assumes one: "countPiece s (if isWhiteTurn s then WHITE_KING else BLACK_KING) \<le> 1"
  shows "isCheckmate s
     = Some (inCheck s (isWhiteTurn s) \<and> \<not> (\<exists>fr fc tr tc. accepted s fr fc tr tc), s)"
proof (cases "inCheck s (isWhiteTurn s)")
  case False
  then show ?thesis by (simp add: isCheckmate_def isInCheck_inCheck)
next
  case True
  define kp where "kp = (if isWhiteTurn s then WHITE_KING else BLACK_KING)"
  obtain kr kc where fk: "findKing squares s kp = (kr, kc)"
    by (cases "findKing squares s kp")
  define esc where "esc = (kr \<noteq> -1 \<and> (\<exists>d \<in> set kingOffsets.
      accepted s kr kc (kr + fst d) (kc + snd d)))"
  define mv where "mv = (\<exists>f \<in> set squares.
      ((isWhiteTurn s \<and> isupper (board s f)) \<or> (\<not> isWhiteTurn s \<and> islower (board s f)))
      \<and> toupper (board s f) \<noteq> WHITE_KING
      \<and> (\<exists>t \<in> set squares. accepted s (fst f) (snd f) (fst t) (snd t)))"
  have run: "isCheckmate s = Some (\<not> esc \<and> \<not> mv, s)"
    unfolding isCheckmate_def Let_def isInCheck_inCheck
    using True fk
    by (auto simp: kp_def esc_def mv_def isCheckmate_kingLoop_eq isCheckmate_pieceLoop_eq)
  have "(esc \<or> mv) = (\<exists>fr fc tr tc. accepted s fr fc tr tc)"
  proof
    assume "esc \<or> mv"
    then show "\<exists>fr fc tr tc. accepted s fr fc tr tc"
      unfolding esc_def mv_def by blast
  next
    assume "\<exists>fr fc tr tc. accepted s fr fc tr tc"
    then obtain fr fc tr tc where a: "accepted s fr fc tr tc" by blast
    have sq: "(fr, fc) \<in> set squares" "(tr, tc) \<in> set squares"
      using accepted_squares[OF a] by simp_all
    show "esc \<or> mv"
    proof (cases "toupper (board s (fr, fc)) = WHITE_KING")
      case False
      have "accepted s (fst (fr, fc)) (snd (fr, fc)) (fst (tr, tc)) (snd (tr, tc))"
        using a by simp
      with False sq accepted_own[OF a] have mv
        unfolding mv_def by blast
      then show ?thesis by simp
    next
      case king: True
      have "board s (fr, fc) = kp"
        using king accepted_piece(2,3)[OF a]
        by (cases "isWhiteTurn s") (auto simp: kp_def toupper_cases letter_case)
      then have "findKing squares s kp = (fr, fc)"
        using findKing_unique[of s kp "(fr, fc)"] one sq by (simp add: kp_def)
      with fk have krc: "kr = fr" "kc = fc" by simp_all
      have step: "abs (tr - fr) \<le> 1 \<and> abs (tc - fc) \<le> 1"
        using accepted_king_step[OF a king True] .
      have "(tr - fr, tc - fc) \<in> set kingOffsets"
        using step by (auto simp: set_kingOffsets)
      moreover have "accepted s kr kc (kr + fst (tr - fr, tc - fc)) (kc + snd (tr - fr, tc - fc))"
        using a krc by simp
      moreover have "kr \<noteq> -1"
        using accepted_in_bounds[OF a] krc by simp
      ultimately have esc unfolding esc_def by blast
      then show ?thesis by simp
    qed
  qed
  with run True show ?thesis by auto
qed

lemma isDraw_eq:
  "isDraw s = Some (isStalemate s = Some (True, s) \<or> isInsufficientMaterial s
                     \<or> halfmoveClock s \<ge> 100, s)"
  by (auto simp: isDraw_def isStalemate_eq isFiftyMoveRule_def isThreefoldRepetition_def)

section \<open>The move generator\<close>

lemma isPieceUnderAttack_loop_frame:
  "returnsTo s (isPieceUnderAttack_loop sqs s row col w)"
proof (induction sqs)
  case Nil
  show ?case by (simp add: returnsTo_Some)
next
  case (Cons sq sqs)
  obtain i j where sq: "sq = (i, j)" by (cases sq)
  show ?case
    unfolding sq isPieceUnderAttack_loop.simps Let_def
    by (intro returnsTo_intros returnsTo_bind[OF isValidMove_frame])
       (simp_all add: Cons.IH)
qed

lemma isPieceUnderAttack_frame: "returnsTo s (isPieceUnderAttack s row col)"
  unfolding isPieceUnderAttack_def Let_def
  by (intro returnsTo_intros isPieceUnderAttack_loop_frame) simp

lemma scoreMoveForOrdering_frame:
  "returnsTo s (scoreMoveForOrdering s fr fc tr tc)"
proof -
  have under: "returnsTo s (isPieceUnderAttack s' fr fc \<bind> case_prod g)"
    if "s' = s" "\<And>v. returnsTo s ((g :: bool \<Rightarrow> GameState \<Rightarrow> (int \<times> GameState) option) v s)"
    for s' g
    using that returnsTo_bind[OF isPieceUnderAttack_frame, of s g s fr fc] by simp
  show ?thesis
    unfolding scoreMoveForOrdering_def Let_def
    by (intro returnsTo_bind[OF isInCheck_frame] under returnsTo_intros)
       (simp_all add: setSquare_restore)
qed

lemma generateAllMoves_to_spec:
  "\<exists>ml'. generateAllMoves_to tos s ml fr fc = Some (ml', s)
      \<and> length ml \<le> length ml' \<and> length ml' \<le> length ml + length tos
      \<and> set (map fst ml') \<subseteq> set (map fst ml)
            \<union> {(fr, fc, tr, tc) | tr tc. (tr, tc) \<in> set tos \<and> accepted s fr fc tr tc}
      \<and> (length ml' < 256 \<longrightarrow>
            set (map fst ml)
              \<union> {(fr, fc, tr, tc) | tr tc. (tr, tc) \<in> set tos \<and> accepted s fr fc tr tc}
            \<subseteq> set (map fst ml'))"
proof (induction tos arbitrary: ml)
  case Nil
  show ?case by simp
next
  case (Cons t tos)
  obtain tr tc where t: "t = (tr, tc)" by (cases t)
  show ?case
  proof (cases "accepted s fr fc tr tc \<and> length ml < 256")
    case True
    obtain sc where sc: "scoreMoveForOrdering s fr fc tr tc = Some (sc, s)"
      using scoreMoveForOrdering_frame[of s fr fc tr tc] by (auto simp: returnsTo_def)
    have run: "generateAllMoves_to ((tr, tc) # tos) s ml fr fc
                 = generateAllMoves_to tos s (ml @ [((fr, fc, tr, tc), sc)]) fr fc"
      using True by (simp add: isValidMove_accepted sc)
    from Cons.IH[of "ml @ [((fr, fc, tr, tc), sc)]"] obtain ml' where
      ih: "generateAllMoves_to tos s (ml @ [((fr, fc, tr, tc), sc)]) fr fc = Some (ml', s)"
        "length (ml @ [((fr, fc, tr, tc), sc)]) \<le> length ml'"
        "length ml' \<le> length (ml @ [((fr, fc, tr, tc), sc)]) + length tos"
        "set (map fst ml') \<subseteq> set (map fst (ml @ [((fr, fc, tr, tc), sc)]))
            \<union> {(fr, fc, tr, tc) | tr tc. (tr, tc) \<in> set tos \<and> accepted s fr fc tr tc}"
        "length ml' < 256 \<longrightarrow>
            set (map fst (ml @ [((fr, fc, tr, tc), sc)]))
              \<union> {(fr, fc, tr, tc) | tr tc. (tr, tc) \<in> set tos \<and> accepted s fr fc tr tc}
            \<subseteq> set (map fst ml')"
      by blast
    show ?thesis
      apply (rule exI[of _ ml'])
      using ih True unfolding t run by auto
  next
    case False
    have run: "generateAllMoves_to ((tr, tc) # tos) s ml fr fc
                 = generateAllMoves_to tos s ml fr fc"
      using False by (auto simp: isValidMove_accepted)
    from Cons.IH[of ml] obtain ml' where
      ih: "generateAllMoves_to tos s ml fr fc = Some (ml', s)"
        "length ml \<le> length ml'"
        "length ml' \<le> length ml + length tos"
        "set (map fst ml') \<subseteq> set (map fst ml)
            \<union> {(fr, fc, tr, tc) | tr tc. (tr, tc) \<in> set tos \<and> accepted s fr fc tr tc}"
        "length ml' < 256 \<longrightarrow>
            set (map fst ml)
              \<union> {(fr, fc, tr, tc) | tr tc. (tr, tc) \<in> set tos \<and> accepted s fr fc tr tc}
            \<subseteq> set (map fst ml')"
      by blast
    show ?thesis
      apply (rule exI[of _ ml'])
      using ih False unfolding t run by auto
  qed
qed

lemma length_squares: "length squares = 64"
  by code_simp

lemma generateAllMoves_from_spec:
  "\<exists>ml'. generateAllMoves_from froms s ml = Some (ml', s)
      \<and> length ml \<le> length ml'
      \<and> length ml' \<le> length ml
            + 64 * length (filter (\<lambda>f. (isWhiteTurn s \<and> isupper (board s f))
                                        \<or> (\<not> isWhiteTurn s \<and> islower (board s f))) froms)
      \<and> set (map fst ml') \<subseteq> set (map fst ml)
            \<union> {(fr, fc, tr, tc) | fr fc tr tc.
                 (fr, fc) \<in> set froms \<and> (tr, tc) \<in> set squares \<and> accepted s fr fc tr tc}
      \<and> (length ml' < 256 \<longrightarrow>
            set (map fst ml)
              \<union> {(fr, fc, tr, tc) | fr fc tr tc.
                   (fr, fc) \<in> set froms \<and> (tr, tc) \<in> set squares \<and> accepted s fr fc tr tc}
            \<subseteq> set (map fst ml'))"
proof (induction froms arbitrary: ml)
  case Nil
  show ?case by simp
next
  case (Cons f froms)
  obtain fr fc where f: "f = (fr, fc)" by (cases f)
  let ?own = "\<lambda>f. (isWhiteTurn s \<and> isupper (board s f)) \<or> (\<not> isWhiteTurn s \<and> islower (board s f))"
  show ?case
  proof (cases "?own (fr, fc)")
    case True
    from generateAllMoves_to_spec[of squares s ml fr fc] obtain ml1 where
      to: "generateAllMoves_to squares s ml fr fc = Some (ml1, s)"
        "length ml \<le> length ml1"
        "length ml1 \<le> length ml + length squares"
        "set (map fst ml1) \<subseteq> set (map fst ml)
            \<union> {(fr, fc, tr, tc) | tr tc. (tr, tc) \<in> set squares \<and> accepted s fr fc tr tc}"
        "length ml1 < 256 \<longrightarrow>
            set (map fst ml)
              \<union> {(fr, fc, tr, tc) | tr tc. (tr, tc) \<in> set squares \<and> accepted s fr fc tr tc}
            \<subseteq> set (map fst ml1)"
      by blast
    have run: "generateAllMoves_from ((fr, fc) # froms) s ml = generateAllMoves_from froms s ml1"
      using True by (simp add: to(1))
    from Cons.IH[of ml1] obtain ml' where
      ih: "generateAllMoves_from froms s ml1 = Some (ml', s)"
        "length ml1 \<le> length ml'"
        "length ml' \<le> length ml1 + 64 * length (filter ?own froms)"
        "set (map fst ml') \<subseteq> set (map fst ml1)
            \<union> {(fr, fc, tr, tc) | fr fc tr tc.
                 (fr, fc) \<in> set froms \<and> (tr, tc) \<in> set squares \<and> accepted s fr fc tr tc}"
        "length ml' < 256 \<longrightarrow>
            set (map fst ml1)
              \<union> {(fr, fc, tr, tc) | fr fc tr tc.
                   (fr, fc) \<in> set froms \<and> (tr, tc) \<in> set squares \<and> accepted s fr fc tr tc}
            \<subseteq> set (map fst ml')"
      by blast
    have len: "length ml' \<le> length ml + 64 * length (filter ?own ((fr, fc) # froms))"
      using True to(3) ih(3) by (simp add: length_squares)
    let ?T = "{(fr, fc, tr, tc) | tr tc. (tr, tc) \<in> set squares \<and> accepted s fr fc tr tc}"
    let ?F = "{(fr, fc, tr, tc) | fr fc tr tc.
                 (fr, fc) \<in> set froms \<and> (tr, tc) \<in> set squares \<and> accepted s fr fc tr tc}"
    let ?F' = "{(fr', fc', tr, tc) | fr' fc' tr tc.
                 (fr', fc') \<in> set ((fr, fc) # froms) \<and> (tr, tc) \<in> set squares
                 \<and> accepted s fr' fc' tr tc}"
    have split: "?F' = ?T \<union> ?F" by auto
    have sound: "set (map fst ml') \<subseteq> set (map fst ml) \<union> ?F'"
      unfolding split using to(4) ih(4) by blast
    have complete: "set (map fst ml) \<union> ?F' \<subseteq> set (map fst ml')" if small: "length ml' < 256"
    proof -
      have "length ml1 < 256" using small ih(2) by simp
      with to(5) have a: "set (map fst ml) \<union> ?T \<subseteq> set (map fst ml1)" by simp
      from ih(5) small have b: "set (map fst ml1) \<union> ?F \<subseteq> set (map fst ml')" by simp
      show ?thesis unfolding split using a b by blast
    qed
    show ?thesis
      unfolding f run
      using ih(1) to(2) ih(2) len sound complete by (intro exI[of _ ml']) simp
  next
    case False
    have none: "\<not> accepted s fr fc tr tc" for tr tc
      using False accepted_own[of s fr fc tr tc] by blast
    have run: "generateAllMoves_from ((fr, fc) # froms) s ml = generateAllMoves_from froms s ml"
      using False by (auto simp: Let_def)
    from Cons.IH[of ml] obtain ml' where
      ih: "generateAllMoves_from froms s ml = Some (ml', s)"
        "length ml \<le> length ml'"
        "length ml' \<le> length ml + 64 * length (filter ?own froms)"
        "set (map fst ml') \<subseteq> set (map fst ml)
            \<union> {(fr, fc, tr, tc) | fr fc tr tc.
                 (fr, fc) \<in> set froms \<and> (tr, tc) \<in> set squares \<and> accepted s fr fc tr tc}"
        "length ml' < 256 \<longrightarrow>
            set (map fst ml)
              \<union> {(fr, fc, tr, tc) | fr fc tr tc.
                   (fr, fc) \<in> set froms \<and> (tr, tc) \<in> set squares \<and> accepted s fr fc tr tc}
            \<subseteq> set (map fst ml')"
      by blast
    have same: "{(fr', fc', tr, tc) | fr' fc' tr tc.
                   (fr', fc') \<in> set ((fr, fc) # froms) \<and> (tr, tc) \<in> set squares
                   \<and> accepted s fr' fc' tr tc}
             = {(fr, fc, tr, tc) | fr fc tr tc.
                   (fr, fc) \<in> set froms \<and> (tr, tc) \<in> set squares \<and> accepted s fr fc tr tc}"
      using none by auto
    show ?thesis
      unfolding f run same
      using ih False by (intro exI[of _ ml']) auto
  qed
qed

text \<open>
  The generator returns with the state unchanged; every move it emits is accepted by the
  legality query; and a list shorter than the capacity of 256 holds every accepted move.
\<close>

lemma generateAllMoves_spec:
  "\<exists>ml. generateAllMoves s = Some (ml, s)
      \<and> length ml \<le> 64 * length (filter (\<lambda>f. (isWhiteTurn s \<and> isupper (board s f))
                                              \<or> (\<not> isWhiteTurn s \<and> islower (board s f))) squares)
      \<and> (\<forall>fr fc tr tc. (fr, fc, tr, tc) \<in> set (map fst ml) \<longrightarrow> accepted s fr fc tr tc)
      \<and> (length ml < 256 \<longrightarrow>
            (\<forall>fr fc tr tc. accepted s fr fc tr tc \<longrightarrow> (fr, fc, tr, tc) \<in> set (map fst ml)))"
proof -
  from generateAllMoves_from_spec[of squares s "[]"] obtain ml where
    g: "generateAllMoves_from squares s [] = Some (ml, s)"
      "length ml \<le> length ([] :: MoveList)
          + 64 * length (filter (\<lambda>f. (isWhiteTurn s \<and> isupper (board s f))
                                     \<or> (\<not> isWhiteTurn s \<and> islower (board s f))) squares)"
      "set (map fst ml) \<subseteq> set (map fst ([] :: MoveList))
          \<union> {(fr, fc, tr, tc) | fr fc tr tc.
               (fr, fc) \<in> set squares \<and> (tr, tc) \<in> set squares \<and> accepted s fr fc tr tc}"
      "length ml < 256 \<longrightarrow>
          set (map fst ([] :: MoveList))
            \<union> {(fr, fc, tr, tc) | fr fc tr tc.
                 (fr, fc) \<in> set squares \<and> (tr, tc) \<in> set squares \<and> accepted s fr fc tr tc}
          \<subseteq> set (map fst ml)"
    by blast
  have sound: "accepted s fr fc tr tc" if "(fr, fc, tr, tc) \<in> set (map fst ml)" for fr fc tr tc
    using g(3) that by auto
  have complete: "(fr, fc, tr, tc) \<in> set (map fst ml)"
    if "length ml < 256" "accepted s fr fc tr tc" for fr fc tr tc
  proof -
    have "(fr, fc) \<in> set squares" "(tr, tc) \<in> set squares"
      using accepted_squares[OF that(2)] by simp_all
    with that g(4) show ?thesis by auto
  qed
  show ?thesis
    unfolding generateAllMoves_def
    using g(1,2) sound complete by (intro exI[of _ ml]) auto
qed

subsection \<open>The evaluation leaves the position as it found it\<close>

lemma evaluateBoard_attacks_frame:
  "returnsTo s (evaluateBoard_attacks tos s w row col count)"
proof (induction tos arbitrary: count)
  case Nil
  show ?case by (simp add: returnsTo_Some)
next
  case (Cons t tos)
  obtain tr tc where t: "t = (tr, tc)" by (cases t)
  have restore: "s\<lparr>isWhiteTurn := w, isWhiteTurn := isWhiteTurn s\<rparr> = s" by simp
  show ?case unfolding t using Cons.IH
    by (simp add: isValidMove_accepted Let_def restore)
qed

lemma evaluateBoard_loop_frame:
  "returnsTo s (evaluateBoard_loop sqs s score attackWhite attackBlack)"
proof (induction sqs arbitrary: score attackWhite attackBlack)
  case Nil
  show ?case by (simp add: returnsTo_Some)
next
  case (Cons sq sqs)
  obtain row col where sq: "sq = (row, col)" by (cases sq)
  obtain aw where aw: "evaluateBoard_attacks squares s True row col attackWhite = Some (aw, s)"
    using evaluateBoard_attacks_frame[of s squares True row col attackWhite]
    by (auto simp: returnsTo_def)
  obtain ab where ab: "evaluateBoard_attacks squares s False row col attackBlack = Some (ab, s)"
    using evaluateBoard_attacks_frame[of s squares False row col attackBlack]
    by (auto simp: returnsTo_def)
  obtain u where u: "isPieceUnderAttack s row col = Some (u, s)"
    using isPieceUnderAttack_frame[of s row col] by (auto simp: returnsTo_def)
  show ?case unfolding sq using Cons.IH
    by (simp add: aw ab u Let_def)
qed

lemma evaluateKingSafety_frame: "returnsTo s (evaluateKingSafety s)"
  unfolding evaluateKingSafety_def
  by (simp add: isInCheck_inCheck Let_def returnsTo_Some split: prod.splits)

lemma evaluateBoard_frame: "returnsTo s (evaluateBoard cache s)"
proof -
  obtain r where r: "evaluateBoard_loop squares s 0 0 0 = Some (r, s)"
    using evaluateBoard_loop_frame[of s squares 0 0 0] by (auto simp: returnsTo_def)
  obtain k where k: "evaluateKingSafety s = Some (k, s)"
    using evaluateKingSafety_frame[of s] by (auto simp: returnsTo_def)
  show ?thesis unfolding evaluateBoard_def
    by (simp add: r k isInCheck_inCheck Let_def returnsTo_Some split: prod.splits)
qed

subsection \<open>Captures and the number of pieces\<close>

lemma distinct_squares: "distinct squares"
  by code_simp

lemma pieceCount_le: "pieceCount s \<le> 64"
  unfolding pieceCount_def using length_filter_le[of _ squares] by (simp add: length_squares)

lemma pieceCount_card:
  "pieceCount s = card ({sq. board s sq \<noteq> EMPTY} \<inter> set squares)"
  unfolding pieceCount_def by (rule distinct_length_filter[OF distinct_squares])

lemma pieceCount_capture:
  assumes "(fr, fc) \<in> set squares" "(fr, fc) \<noteq> (tr, tc)"
    and "board s (fr, fc) \<noteq> EMPTY" "board s (tr, tc) \<noteq> EMPTY"
  shows "pieceCount (setSquare (setSquare s tr tc (board s (fr, fc))) fr fc EMPTY)
         < pieceCount s"
proof -
  let ?s' = "setSquare (setSquare s tr tc (board s (fr, fc))) fr fc EMPTY"
  let ?A = "{sq. board s sq \<noteq> EMPTY} \<inter> set squares"
  have "{sq. board ?s' sq \<noteq> EMPTY} \<inter> set squares = ?A - {(fr, fc)}"
    using assms by (auto simp: setSquare_def)
  moreover have "card (?A - {(fr, fc)}) < card ?A"
    by (rule card_Diff1_less) (use assms in simp_all)
  ultimately show ?thesis
    unfolding pieceCount_card by simp
qed

lemma accepted_capture:
  assumes "accepted s fr fc tr tc" "board s (tr, tc) \<noteq> EMPTY"
  shows "pieceCount (setSquare (setSquare s tr tc (board s (fr, fc))) fr fc EMPTY)
         < pieceCount s"
proof (rule pieceCount_capture)
  show "(fr, fc) \<in> set squares" using accepted_squares[OF assms(1)] by simp
  show "board s (fr, fc) \<noteq> EMPTY" by (rule accepted_piece(1)[OF assms(1)])
  show "board s (tr, tc) \<noteq> EMPTY" by (rule assms(2))
  show "(fr, fc) \<noteq> (tr, tc)"
  proof
    assume eq: "(fr, fc) = (tr, tc)"
    show False
    proof (cases "isWhiteTurn s")
      case True
      then show False
        using accepted_piece(2)[OF assms(1)] accepted_piece(4)[OF assms(1)] eq by simp
    next
      case False
      then show False
        using accepted_own[OF assms(1)] accepted_piece(5)[OF assms(1)] eq by simp
    qed
  qed
qed

subsection \<open>The search leaves the position as it found it\<close>

lemma framed_Some: "framed t s (Some (v, s))"
  by (simp add: framed_def)

lemma framed_None: "framed t s None = (\<not> t)"
  by (simp add: framed_def)

lemma framed_weaken: "framed t s m \<Longrightarrow> (t' \<Longrightarrow> t) \<Longrightarrow> framed t' s m"
  by (auto simp: framed_def split: option.splits)

lemma framed_returnsTo: "framed True s m = returnsTo s m"
  by (auto simp: framed_def returnsTo_def split: option.splits)

lemma framed_cases:
  assumes "framed t s m"
  obtains (diverges) "m = None" "\<not> t" | (returns) v where "m = Some (v, s)"
  using assms by (cases m) (auto simp: framed_def)

lemma quiescence_to_framed:
  assumes rec: "\<And>c s' a b m. framed (t \<and> pieceCount s' < pieceCount s) s' (recurse c s' a b m)"
  shows "framed t s (quiescence_to recurse tos c s a b m fr fc)"
proof (induction tos arbitrary: c a b)
  case Nil
  show ?case by (simp add: framed_Some)
next
  case (Cons x tos)
  obtain tr tc where x: "x = (tr, tc)" by (cases x)
  let ?guard = "board s (tr, tc) \<noteq> EMPTY
         \<and> ((m \<and> islower (board s (tr, tc))) \<or> (\<not> m \<and> isupper (board s (tr, tc))))"
  show ?case
  proof (cases "?guard \<and> accepted s fr fc tr tc")
    case False
    then show ?thesis unfolding x using Cons.IH
      by (auto simp: isValidMove_accepted)
  next
    case True
    let ?s3 = "setSquare (setSquare s tr tc (board s (fr, fc))) fr fc EMPTY"
    from True have less: "pieceCount ?s3 < pieceCount s"
      by (intro accepted_capture) simp_all
    from rec[of ?s3 c a b "\<not> m"] less
    have "framed t ?s3 (recurse c ?s3 a b (\<not> m))" by simp
    then show ?thesis
    proof (cases rule: framed_cases)
      case diverges
      then show ?thesis unfolding x using True
        by (cases m) (simp_all add: isValidMove_accepted Let_def framed_None)
    next
      case (returns v)
      obtain score c1 where v: "v = (score, c1)" by (cases v)
      show ?thesis unfolding x using True Cons.IH returns
        by (cases m)
          (simp_all add: isValidMove_accepted Let_def v setSquare_restore framed_Some)
    qed
  qed
qed

lemma quiescence_from_framed:
  assumes rec: "\<And>c s' a b m. framed (t \<and> pieceCount s' < pieceCount s) s' (recurse c s' a b m)"
  shows "framed t s (quiescence_from recurse froms c s a b m)"
proof (induction froms arbitrary: c a b)
  case Nil
  show ?case by (simp add: framed_Some)
next
  case (Cons x froms)
  obtain fr fc where x: "x = (fr, fc)" by (cases x)
  have "framed t s (quiescence_to recurse squares c s a b m fr fc)"
    by (rule quiescence_to_framed[OF rec])
  then show ?case
  proof (cases rule: framed_cases)
    case diverges
    then show ?thesis unfolding x using Cons.IH
      by (simp add: Let_def framed_None)
  next
    case (returns v)
    obtain exit c1 where v: "v = (exit, c1)" by (cases v)
    show ?thesis unfolding x using Cons.IH
      by (cases exit) (simp_all add: Let_def returns v framed_Some)
  qed
qed

lemma quiescence_framed:
  "framed (pieceCount s < fuel) s (quiescence fuel c s a b m)"
proof (induction fuel arbitrary: c s a b m)
  case 0
  show ?case by (simp add: framed_None)
next
  case (Suc fuel)
  obtain standPat c1 where e: "evaluateBoard c s = Some ((standPat, c1), s)"
    using evaluateBoard_frame[of s c] by (auto simp: returnsTo_def)
  have loop: "framed (pieceCount s < Suc fuel) s
                (quiescence_from (quiescence fuel) squares c1 s a' b' m)" for a' b'
  proof (rule quiescence_from_framed)
    fix c' s' a'' b'' m'
    show "framed (pieceCount s < Suc fuel \<and> pieceCount s' < pieceCount s) s'
            (quiescence fuel c' s' a'' b'' m')"
      by (rule framed_weaken[OF Suc.IH]) simp
  qed
  have wrap: "framed (pieceCount s < Suc fuel) s
      (quiescence_from (quiescence fuel) squares c1 s a' b' m \<bind>
         (\<lambda>((exit, cache2), state2). case exit of
              Returned v \<Rightarrow> Some ((v, cache2), state2)
            | Completed alpha2 beta2 \<Rightarrow> Some ((if m then alpha2 else beta2, cache2), state2)))"
    for a' b'
    using loop[of a' b']
  proof (cases rule: framed_cases)
    case diverges
    then show ?thesis by (simp add: framed_None)
  next
    case (returns v)
    obtain exit c2 where v: "v = (exit, c2)" by (cases v)
    show ?thesis by (cases exit) (simp_all add: returns v framed_Some)
  qed
  show ?case
    by (simp add: e Let_def framed_Some wrap)
qed

lemma minimax_loop_framed:
  assumes rec: "\<And>c s' a b m. framed t s' (recurse c s' (d - 1) a b m)"
  shows "framed t s (minimax_loop recurse ml c s d a b m best)"
proof (induction ml arbitrary: c a b best)
  case Nil
  show ?case by (simp add: framed_Some)
next
  case (Cons x ml)
  obtain fr fc tr tc sc where x: "x = ((fr, fc, tr, tc), sc)" by (cases x) auto
  let ?s2 = "setSquare (setSquare s tr tc (board s (fr, fc))) fr fc EMPTY"
  from rec[of ?s2 c a b "\<not> m"] show ?case
  proof (cases rule: framed_cases)
    case diverges
    then show ?thesis unfolding x by (simp add: Let_def framed_None)
  next
    case (returns v)
    obtain score c1 where v: "v = (score, c1)" by (cases v)
    show ?thesis unfolding x using Cons.IH
      by (simp add: Let_def returns v setSquare_restore framed_Some)
  qed
qed

lemma minimax_framed:
  "framed (0 \<le> d \<and> nat d + 65 < fuel) s (minimax fuel c s d a b m)"
proof (induction fuel arbitrary: c s d a b m)
  case 0
  show ?case by (simp add: framed_None)
next
  case (Suc fuel)
  show ?case
  proof (cases "d = 0")
    case True
    have "framed (0 \<le> d \<and> nat d + 65 < Suc fuel) s (quiescence fuel c s a b m)"
      by (rule framed_weaken[OF quiescence_framed]) (use pieceCount_le[of s] True in simp)
    then show ?thesis using True by simp
  next
    case False
    obtain ml where ml: "generateAllMoves s = Some (ml, s)"
      using generateAllMoves_spec[of s] by blast
    have "framed (0 \<le> d \<and> nat d + 65 < Suc fuel) s
            (minimax_loop (minimax fuel) ml' c s d a b m best)" for ml' best
    proof (rule minimax_loop_framed)
      fix c' s' a' b' m'
      show "framed (0 \<le> d \<and> nat d + 65 < Suc fuel) s' (minimax fuel c' s' (d - 1) a' b' m')"
        by (rule framed_weaken[OF Suc.IH]) (use False in auto)
    qed
    then show ?thesis using False
      by (simp add: ml isInCheck_inCheck framed_Some)
  qed
qed

subsection \<open>An attack is the existence of an attacker\<close>

lemma isSquareAttacked_loop_eq:
  "isSquareAttacked_loop sqs s row col w
     = Some ((\<exists>sq \<in> set sqs. board s sq \<noteq> EMPTY
                \<and> ((w \<and> isupper (board s sq)) \<or> (\<not> w \<and> islower (board s sq)))
                \<and> isSquareAttacked_switch (s\<lparr>isWhiteTurn := w\<rparr>) (board s sq)
                      (fst sq) (snd sq) row col = Some True), s)"
proof (induction sqs)
  case Nil
  show ?case by simp
next
  case (Cons sq sqs)
  obtain i j where sq: "sq = (i, j)" by (cases sq)
  obtain v where v: "isSquareAttacked_switch (s\<lparr>isWhiteTurn := w\<rparr>) (board s (i, j)) i j row col
                       = Some v"
    using isSquareAttacked_switch_returns[of "s\<lparr>isWhiteTurn := w\<rparr>" "board s (i, j)" i j row col]
    by (auto simp: returns_def)
  have restore: "s\<lparr>isWhiteTurn := w, isWhiteTurn := isWhiteTurn s\<rparr> = s" by simp
  show ?case unfolding sq using Cons.IH
    by (cases v) (auto simp: v Let_def restore)
qed

lemma attacked_iff:
  "attacked s row col w
     = (\<exists>sq \<in> set squares. board s sq \<noteq> EMPTY
          \<and> ((w \<and> isupper (board s sq)) \<or> (\<not> w \<and> islower (board s sq)))
          \<and> isSquareAttacked_switch (s\<lparr>isWhiteTurn := w\<rparr>) (board s sq)
                (fst sq) (snd sq) row col = Some True)"
  unfolding attacked_def isSquareAttacked_def isSquareAttacked_loop_eq by simp

subsection \<open>The king and the place where it is looked for\<close>

lemma countPiece_card:
  "countPiece s k = card ({sq. board s sq = k} \<inter> set squares)"
  unfolding countPiece_def by (rule distinct_length_filter[OF distinct_squares])

lemma only_king:
  assumes "countPiece s k \<le> 1" "sq \<in> set squares" "board s sq = k"
  shows "{q. board s q = k} \<inter> set squares = {sq}"
proof -
  let ?A = "{q. board s q = k} \<inter> set squares"
  have fin: "finite ?A" by simp
  have le: "card ?A \<le> Suc 0" using assms(1) by (simp add: countPiece_card)
  have mem: "sq \<in> ?A" using assms by simp
  have "\<forall>a\<in>?A. \<forall>b\<in>?A. a = b"
    using le fin by (simp only: card_le_Suc0_iff_eq)
  with mem show ?thesis by blast
qed

lemma isInCheck_at:
  assumes "countPiece s (if w then WHITE_KING else BLACK_KING) \<le> 1"
    and "(r, c) \<in> set squares" "board s (r, c) = (if w then WHITE_KING else BLACK_KING)"
  shows "inCheck s w = attacked s r c (\<not> w)"
proof -
  have k: "findKing squares s (if w then WHITE_KING else BLACK_KING) = (r, c)"
    by (rule findKing_unique[OF assms])
  have inb: "r \<noteq> -1 \<and> c \<noteq> -1" using assms(2) by (auto simp: set_squares)
  show ?thesis
    unfolding inCheck_def attacked_def isInCheck_def Let_def k using inb by simp
qed

subsection \<open>Moving the own king aside does not open a line through its old square\<close>

lemma rookPath_down_agree:
  assumes agree: "\<And>x. x < 7 \<Longrightarrow> board s (x, c) = board s' (x, c)"
  shows "r \<le> 7 \<Longrightarrow> rookPath s 1 0 7 c r c = rookPath s' 1 0 7 c r c"
proof (induction "nat (7 - r)" arbitrary: r)
  case 0
  then have r: "r = 7" by simp
  show ?case unfolding r
    by (simp add: rookPath.simps[of s 1 0 7 c 7 c] rookPath.simps[of s' 1 0 7 c 7 c])
next
  case (Suc n)
  then have r: "r < 7" and n: "n = nat (7 - (r + 1))" and le: "r + 1 \<le> 7" by simp_all
  have step: "rookPath s 1 0 7 c (r + 1) c = rookPath s' 1 0 7 c (r + 1) c"
    by (rule Suc.hyps(1)[OF n le])
  show ?case
    using r step agree[OF r]
    by (simp add: rookPath.simps[of s 1 0 7 c r c] rookPath.simps[of s' 1 0 7 c r c])
qed

lemma bishopPath_down_agree:
  assumes agree: "\<And>x y. x < 7 \<Longrightarrow> board s (x, y) = board s' (x, y)"
  shows "r \<le> 7 \<Longrightarrow> bishopPath s 1 cs 7 tc r c = bishopPath s' 1 cs 7 tc r c"
proof (induction "nat (7 - r)" arbitrary: r c)
  case 0
  then have r: "r = 7" by simp
  show ?case unfolding r
    by (simp add: bishopPath.simps[of s 1 cs 7 tc 7 c] bishopPath.simps[of s' 1 cs 7 tc 7 c])
next
  case (Suc n)
  then have r: "r < 7" and n: "n = nat (7 - (r + 1))" and le: "r + 1 \<le> 7" by simp_all
  have step: "bishopPath s 1 cs 7 tc (r + 1) (c + cs) = bishopPath s' 1 cs 7 tc (r + 1) (c + cs)"
    by (rule Suc.hyps(1)[OF n le])
  show ?case
    using r step agree[OF r, of c]
    by (simp add: bishopPath.simps[of s 1 cs 7 tc r c] bishopPath.simps[of s' 1 cs 7 tc r c])
qed

lemma rookPath_east_nearer:
  assumes agree: "\<And>y. y < 4 \<Longrightarrow> board s (7, y) = board s' (7, y)"
  shows "c \<le> 4 \<Longrightarrow> rookPath s' 0 1 7 6 7 c = Some True \<Longrightarrow> rookPath s 0 1 7 4 7 c = Some True"
proof (induction "nat (4 - c)" arbitrary: c)
  case 0
  then have c: "c = 4" by simp
  show ?case unfolding c by (simp add: rookPath.simps[of s 0 1 7 4 7 4])
next
  case (Suc n)
  then have c: "c < 4" and n: "n = nat (4 - (c + 1))" and le: "c + 1 \<le> 4" by simp_all
  from Suc.prems(2) c
  have here: "\<not> (c < 0)" "board s' (7, c) = EMPTY" "rookPath s' 0 1 7 6 7 (c + 1) = Some True"
    by (auto simp: rookPath.simps[of s' 0 1 7 6 7 c] split: if_splits)
  have step: "rookPath s 0 1 7 4 7 (c + 1) = Some True"
    by (rule Suc.hyps(1)[OF n le here(3)])
  show ?case
    using c here(1,2) step agree[OF c]
    by (simp add: rookPath.simps[of s 0 1 7 4 7 c])
qed

text \<open>
  \<open>s'\<close> is \<open>s\<close> with the white king moved from e1 = (7,4) to g1 = (7,6), as the self-check
  guard simulates the castling move.
\<close>

lemma rook_castled:
  assumes sim: "board s' = (board s)((7, 6) := WHITE_KING, (7, 4) := EMPTY)"
    and f1: "board s (7, 5) = EMPTY"
    and sq: "(i, j) \<in> set squares" "islower (board s' (i, j))"
    and line: "i = 7 \<or> j = 6"
    and move: "isValidRookMove s' i j 7 6 = Some True"
  shows "isValidRookMove s i j 7 6 = Some True \<or> isValidRookMove s i j 7 4 = Some True"
proof -
  have inb: "0 \<le> i" "i \<le> 7" "0 \<le> j" "j \<le> 7" using sq(1) by (auto simp: set_squares)
  have not_g1: "(i, j) \<noteq> (7, 6)" using sq(2) sim by (auto simp: letter_case upper_not_lower)
  have not_e1: "(i, j) \<noteq> (7, 4)" using sq(2) sim by (auto dest: lower_not_empty)
  have not_f1: "(i, j) \<noteq> (7, 5)" using sq(2) sim f1 by (auto dest: lower_not_empty)
  show ?thesis
  proof (cases "j = 6")
    case True
    with not_g1 inb have i: "i < 7" by simp
    have "rookPath s 1 0 7 6 (i + 1) 6 = rookPath s' 1 0 7 6 (i + 1) 6"
      by (rule rookPath_down_agree) (use i sim in auto)
    then show ?thesis using move True i by (simp add: isValidRookMove_def)
  next
    case False
    with line have i: "i = 7" by simp
    show ?thesis
    proof (cases "j = 7")
      case True
      then show ?thesis using i
        by (simp add: isValidRookMove_def rookPath.simps[of s 0 "-1" 7 6 7 6])
    next
      case j7: False
      with False inb not_e1 not_f1 i have j: "j < 4" by auto
      have "rookPath s' 0 1 7 6 7 (j + 1) = Some True"
        using move i j by (simp add: isValidRookMove_def)
      then have "rookPath s 0 1 7 4 7 (j + 1) = Some True"
        by (intro rookPath_east_nearer[of s s']) (use j sim in auto)
      then show ?thesis using i j by (simp add: isValidRookMove_def)
    qed
  qed
qed

lemma bishop_castled:
  assumes sim: "board s' = (board s)((7, 6) := WHITE_KING, (7, 4) := EMPTY)"
    and sq: "(i, j) \<in> set squares" "islower (board s' (i, j))"
    and move: "isValidBishopMove s' i j 7 6 = Some True"
  shows "isValidBishopMove s i j 7 6 = Some True"
proof -
  have inb: "0 \<le> i" "i \<le> 7" "0 \<le> j" "j \<le> 7" using sq(1) by (auto simp: set_squares)
  have not_g1: "(i, j) \<noteq> (7, 6)" using sq(2) sim by (auto simp: letter_case upper_not_lower)
  have diag: "abs (7 - i) = abs (6 - j)"
    using move by (auto simp: isValidBishopMove_def split: if_splits)
  with not_g1 inb have i: "i < 7" by auto
  have agree: "bishopPath s 1 cs 7 6 (i + 1) c = bishopPath s' 1 cs 7 6 (i + 1) c" for cs c
    by (rule bishopPath_down_agree) (use i sim in auto)
  have "isValidBishopMove s i j 7 6 = isValidBishopMove s' i j 7 6"
    using i by (simp add: isValidBishopMove_def Let_def agree)
  then show ?thesis using move by simp
qed

lemma queen_castled:
  assumes sim: "board s' = (board s)((7, 6) := WHITE_KING, (7, 4) := EMPTY)"
    and f1: "board s (7, 5) = EMPTY"
    and sq: "(i, j) \<in> set squares" "islower (board s' (i, j))"
    and move: "isValidQueenMove s' i j 7 6 = Some True"
  shows "isValidQueenMove s i j 7 6 = Some True
         \<or> (i = 7 \<and> isValidQueenMove s i j 7 4 = Some True)"
proof -
  obtain r' where r': "isValidRookMove s' i j 7 6 = Some r'"
    using isValidRookMove_returns[of s' i j 7 6] by (auto simp: returns_def)
  obtain r where r: "isValidRookMove s i j 7 6 = Some r"
    using isValidRookMove_returns[of s i j 7 6] by (auto simp: returns_def)
  show ?thesis
  proof (cases r')
    case True
    then have line: "i = 7 \<or> j = 6"
      using r' by (auto simp: isValidRookMove_def split: if_splits)
    from rook_castled[OF sim f1 sq line] r' True
    have alt: "isValidRookMove s i j 7 6 = Some True \<or> isValidRookMove s i j 7 4 = Some True"
      by simp
    have row: "i = 7" if "isValidRookMove s i j 7 4 = Some True" "isValidRookMove s i j 7 6 \<noteq> Some True"
    proof -
      from that(1) have "i = 7 \<or> j = 4"
        by (auto simp: isValidRookMove_def split: if_splits)
      moreover have "j = 4 \<Longrightarrow> i = 7" using line by simp
      ultimately show ?thesis by blast
    qed
    from alt row r show ?thesis
      by (cases r) (auto simp: isValidQueenMove_def)
  next
    case False
    then have "isValidBishopMove s' i j 7 6 = Some True"
      using move r' by (simp add: isValidQueenMove_def)
    then have "isValidBishopMove s i j 7 6 = Some True"
      by (rule bishop_castled[OF sim sq])
    then show ?thesis using r by (cases r) (simp_all add: isValidQueenMove_def)
  qed
qed

lemma switch_castled:
  assumes sim: "board s' = (board s)((7, 6) := WHITE_KING, (7, 4) := EMPTY)"
    and f1: "board s (7, 5) = EMPTY"
    and sq: "(i, j) \<in> set squares" "islower (board s' (i, j))"
    and att: "isSquareAttacked_switch s' p i j 7 6 = Some True"
  shows "isSquareAttacked_switch s p i j 7 6 = Some True
         \<or> isSquareAttacked_switch s p i j 7 4 = Some True"
proof -
  consider (pawn) "toupper p = WHITE_PAWN" | (rook) "toupper p = WHITE_ROOK"
    | (knight) "toupper p = WHITE_KNIGHT" | (bishop) "toupper p = WHITE_BISHOP"
    | (queen) "toupper p = WHITE_QUEEN" | (king) "toupper p = WHITE_KING"
    | (other) "toupper p \<notin> {WHITE_PAWN, WHITE_ROOK, WHITE_KNIGHT, WHITE_BISHOP,
                              WHITE_QUEEN, WHITE_KING}"
    by blast
  then show ?thesis
  proof cases
    case pawn
    then show ?thesis using att by (simp add: isSquareAttacked_switch_def Let_def)
  next
    case rook
    then have line: "i = 7 \<or> j = 6" and move: "isValidRookMove s' i j 7 6 = Some True"
      using att by (auto simp: isSquareAttacked_switch_def Let_def split: if_splits)
    from rook_castled[OF sim f1 sq line move]
    have "isValidRookMove s i j 7 6 = Some True \<or> isValidRookMove s i j 7 4 = Some True" .
    moreover have "i = 7 \<or> j = 4" if "isValidRookMove s i j 7 4 = Some True"
      using that by (auto simp: isValidRookMove_def split: if_splits)
    ultimately show ?thesis using rook line
      by (auto simp: isSquareAttacked_switch_def Let_def)
  next
    case knight
    then show ?thesis using att
      by (simp add: isSquareAttacked_switch_def Let_def isValidKnightMove_def)
  next
    case bishop
    then have diag: "abs (i - 7) = abs (j - 6)" and move: "isValidBishopMove s' i j 7 6 = Some True"
      using att by (auto simp: isSquareAttacked_switch_def Let_def split: if_splits)
    from bishop_castled[OF sim sq move] bishop diag show ?thesis
      by (simp add: isSquareAttacked_switch_def Let_def)
  next
    case queen
    then have guard: "i = 7 \<or> j = 6 \<or> abs (i - 7) = abs (j - 6)"
      and move: "isValidQueenMove s' i j 7 6 = Some True"
      using att by (auto simp: isSquareAttacked_switch_def Let_def split: if_splits)
    from queen_castled[OF sim f1 sq move] queen guard show ?thesis
      by (auto simp: isSquareAttacked_switch_def Let_def)
  next
    case king
    then show ?thesis using att by (simp add: isSquareAttacked_switch_def Let_def)
  next
    case other
    then show ?thesis using att by (simp add: isSquareAttacked_switch_def Let_def)
  qed
qed

lemma attacked_castled:
  assumes e1: "board s (7, 4) = WHITE_KING" and f1: "board s (7, 5) = EMPTY"
    and att: "attacked (setSquare (setSquare s 7 6 (board s (7, 4))) 7 4 EMPTY) 7 6 False"
  shows "attacked s 7 6 False \<or> attacked s 7 4 False"
proof -
  let ?s' = "setSquare (setSquare s 7 6 (board s (7, 4))) 7 4 EMPTY"
  have sim: "board (?s'\<lparr>isWhiteTurn := False\<rparr>)
               = (board (s\<lparr>isWhiteTurn := False\<rparr>))((7, 6) := WHITE_KING, (7, 4) := EMPTY)"
    by (simp add: setSquare_def e1)
  from att obtain i j where a:
    "(i, j) \<in> set squares" "islower (board ?s' (i, j))"
    "isSquareAttacked_switch (?s'\<lparr>isWhiteTurn := False\<rparr>) (board ?s' (i, j)) i j 7 6 = Some True"
    unfolding attacked_iff by auto
  have same: "board ?s' (i, j) = board s (i, j)"
    using a(2) by (auto simp: setSquare_def e1 letter_case upper_not_lower dest: lower_not_empty)
  have low: "islower (board (?s'\<lparr>isWhiteTurn := False\<rparr>) (i, j))" using a(2) by simp
  have f1': "board (s\<lparr>isWhiteTurn := False\<rparr>) (7, 5) = EMPTY" using f1 by simp
  from switch_castled[OF sim f1' a(1) low a(3)]
  have "isSquareAttacked_switch (s\<lparr>isWhiteTurn := False\<rparr>) (board s (i, j)) i j 7 6 = Some True
        \<or> isSquareAttacked_switch (s\<lparr>isWhiteTurn := False\<rparr>) (board s (i, j)) i j 7 4 = Some True"
    unfolding same .
  moreover have "board s (i, j) \<noteq> EMPTY" "islower (board s (i, j))"
    using a(2) same by (auto dest: lower_not_empty)
  ultimately show ?thesis
    unfolding attacked_iff using a(1) by force
qed

subsection \<open>Castling on the king's side\<close>

lemma getPinInfo_king:
  assumes "countPiece s (if isupper (board s (r, c)) then WHITE_KING else BLACK_KING) \<le> 1"
    and "(r, c) \<in> set squares"
    and "board s (r, c) = (if isupper (board s (r, c)) then WHITE_KING else BLACK_KING)"
  shows "getPinInfo s r c = Some noPin"
proof -
  have k: "findKing squares s (if isupper (board s (r, c)) then WHITE_KING else BLACK_KING)
             = (r, c)"
    by (rule findKing_unique[OF assms])
  have inb: "0 \<le> r" "r < 8" "0 \<le> c" "c < 8" using assms(2) by (auto simp: set_squares)
  have own: "\<not> (isupper (board s (r, c)) \<and> islower (board s (r, c)))"
    using upper_not_lower by blast
  have scan: "pinScan s (isupper (board s (r, c))) 0 0 r c = Some noPin"
    using inb assms(3)
    by (subst pinScan.simps) (auto simp: Let_def letter_case upper_not_lower)
  show ?thesis
    unfolding getPinInfo_def Let_def k using scan inb by simp
qed

lemma doesMovePutKingInCheck_eq:
  "doesMovePutKingInCheck s fr fc tr tc
     = Some (inCheck (setSquare (setSquare s tr tc (board s (fr, fc))) fr fc EMPTY)
               (isWhiteTurn s), s)"
  unfolding doesMovePutKingInCheck_def Let_def
  by (simp add: isInCheck_inCheck setSquare_restore) (simp add: setSquare_def)

lemma castlingPathEmpty_kingside:
  "board s (r, 5) = EMPTY \<Longrightarrow> board s (r, 6) = EMPTY \<Longrightarrow> castlingPathEmpty s r 7 1 5 = Some True"
  by (simp add: castlingPathEmpty.simps[of s r 7 1 5] castlingPathEmpty.simps[of s r 7 1 6]
      castlingPathEmpty.simps[of s r 7 1 7])

lemma castlingPathSafe_kingside:
  assumes "\<not> attacked s r 4 (\<not> w)" "\<not> attacked s r 5 (\<not> w)" "\<not> attacked s r 6 (\<not> w)"
  shows "castlingPathSafe s r 6 1 w 4 = Some (True, s)"
  using assms
  by (simp add: castlingPathSafe.simps[of s r 6 1 w 4] castlingPathSafe.simps[of s r 6 1 w 5]
      castlingPathSafe.simps[of s r 6 1 w 6] castlingPathSafe.simps[of s r 6 1 w 7]
      isSquareAttacked_attacked)

lemma castling_accepted:
  assumes turn: "isWhiteTurn s"
    and right: "canWhiteCastleKingside s"
    and e1: "board s (7, 4) = WHITE_KING" and h1: "board s (7, 7) = WHITE_ROOK"
    and one: "countPiece s WHITE_KING \<le> 1"
    and f1: "board s (7, 5) = EMPTY" and g1: "board s (7, 6) = EMPTY"
    and safe: "\<not> attacked s 7 4 False" "\<not> attacked s 7 5 False" "\<not> attacked s 7 6 False"
  shows "accepted s 7 4 7 6"
proof -
  let ?s' = "setSquare (setSquare s 7 6 (board s (7, 4))) 7 4 EMPTY"
  have sq: "(7, 4) \<in> set squares" "(7, 6) \<in> set squares" by (simp_all add: set_squares)
  have check: "inCheck s True = attacked s 7 4 False"
    using isInCheck_at[of s True 7 4] one e1 sq by simp
  have castle: "isValidCastling s 7 4 7 6 = Some (True, s)"
    unfolding isValidCastling_def Let_def
    using e1 h1 right safe f1 g1
    by (simp add: letter_case toupper_cases isInCheck_inCheck check castlingPathEmpty_kingside
        castlingPathSafe_kingside[of s 7 True, simplified])
  have king: "isValidKingMove s 7 4 7 6 = Some (True, s)"
    by (simp add: isValidKingMove_def castle)
  have pin: "getPinInfo s 7 4 = Some noPin"
    by (rule getPinInfo_king) (use e1 one sq in \<open>simp_all add: letter_case\<close>)
  have kings: "{q. board ?s' q = WHITE_KING} \<inter> set squares = {(7, 6)}"
    using only_king[OF one sq(1) e1] sq(2) by (auto simp: setSquare_def e1)
  have one': "countPiece ?s' WHITE_KING \<le> 1"
    unfolding countPiece_card kings by simp
  have "inCheck ?s' True = attacked ?s' 7 6 False"
    using isInCheck_at[of ?s' True 7 6] one' sq by (simp add: setSquare_def e1)
  moreover have "\<not> attacked ?s' 7 6 False"
    using attacked_castled[OF e1 f1] safe by blast
  ultimately have self: "\<not> inCheck ?s' True" by simp
  have checks: "isValidMove_checks True s 7 4 7 6 = Some (True, s)"
    using self turn
    by (simp add: isValidMove_checks_def pin noPin_def doesMovePutKingInCheck_eq)
  show ?thesis
    unfolding accepted_def isValidMove_def Let_def
    using turn e1 g1 by (simp add: letter_case toupper_cases king checks)
qed

lemma castling_makeMove:
  assumes e1: "board s (7, 4) = WHITE_KING" and h1: "board s (7, 7) = WHITE_ROOK"
  shows "\<exists>s'. makeMove input s 7 4 7 6 = Some (s', input)
      \<and> board s' (7, 6) = WHITE_KING \<and> board s' (7, 5) = WHITE_ROOK
      \<and> board s' (7, 4) = EMPTY \<and> board s' (7, 7) = EMPTY
      \<and> \<not> canWhiteCastleKingside s' \<and> \<not> canWhiteCastleQueenside s'"
  using e1 h1
  by (simp add: makeMove_def updateCastlingRights_def setSquare_def Let_def letter_case
      toupper_cases)

subsection \<open>The double step and the capture en passant\<close>

lemma isValidMove_checks_eq:
  assumes "getPinInfo s fr fc = Some pin"
  shows "isValidMove_checks True s fr fc tr tc
     = Some (\<not> (isPinned pin \<and> \<not> isMoveAlongPinRay fr fc tr tc pin)
             \<and> \<not> inCheck (setSquare (setSquare s tr tc (board s (fr, fc))) fr fc EMPTY)
                    (isWhiteTurn s), s)"
  by (simp add: isValidMove_checks_def assms doesMovePutKingInCheck_eq)

lemma double_step_makeMove:
  assumes d7: "board s0 (1, 3) = BLACK_PAWN"
  shows "\<exists>s1. makeMove input s0 1 3 3 3 = Some (s1, input)
      \<and> board s1 = (board s0)((3, 3) := BLACK_PAWN, (1, 3) := EMPTY)
      \<and> enPassantTargetRow s1 = 2 \<and> enPassantTargetCol s1 = 3"
  using d7
  by (simp add: makeMove_def updateCastlingRights_def setSquare_def Let_def letter_case
      toupper_cases)

lemma en_passant_pawn_move:
  assumes "board s (3, 4) = WHITE_PAWN" "board s (2, 3) = EMPTY"
    and "enPassantTargetRow s = 2" "enPassantTargetCol s = 3"
  shows "isValidPawnMove s 3 4 2 3"
  using assms by (simp add: isValidPawnMove_def Let_def letter_case)

lemma en_passant_makeMove:
  assumes "board s (3, 4) = WHITE_PAWN"
    and "enPassantTargetRow s = 2" "enPassantTargetCol s = 3"
  shows "\<exists>s'. makeMove input s 3 4 2 3 = Some (s', input)
      \<and> board s' (2, 3) = WHITE_PAWN \<and> board s' (3, 3) = EMPTY \<and> board s' (3, 4) = EMPTY"
  using assms
  by (simp add: makeMove_def updateCastlingRights_def setSquare_def Let_def letter_case
      toupper_cases)

section \<open>Results\<close>

subsection \<open>C4: the round trip through the interchange text\<close>

text \<open>
  Claim C4: decoding the text that encodes a position gives back the same board, side to
  move, castling flags, en-passant target, halfmove clock and fullmove number.
  The decoder starts its fullmove accumulator at 1 and then appends the digits it reads, so
  the fullmove number does not survive: at the starting position (fullmove number 1, text
  \<^verbatim>\<open>... 0 1\<close>) every other component is reproduced, and the fullmove number comes back
  as 11.
\<close>

theorem C4_roundtrip_initial_fullmove:
  "gameStateToFEN initializeGameState
     = ''rnbqkbnr/pppppppp/8/8/8/8/PPPPPPPP/RNBQKBNR w KQkq - 0 1''
   \<and> fst (fenToGameState (gameStateToFEN initializeGameState)) = True
   \<and> map (board (snd (fenToGameState (gameStateToFEN initializeGameState)))) squares
       = map (board initializeGameState) squares
   \<and> isWhiteTurn (snd (fenToGameState (gameStateToFEN initializeGameState)))
       = isWhiteTurn initializeGameState
   \<and> canWhiteCastleKingside (snd (fenToGameState (gameStateToFEN initializeGameState)))
       = canWhiteCastleKingside initializeGameState
   \<and> canWhiteCastleQueenside (snd (fenToGameState (gameStateToFEN initializeGameState)))
       = canWhiteCastleQueenside initializeGameState
   \<and> canBlackCastleKingside (snd (fenToGameState (gameStateToFEN initializeGameState)))
       = canBlackCastleKingside initializeGameState
   \<and> canBlackCastleQueenside (snd (fenToGameState (gameStateToFEN initializeGameState)))
       = canBlackCastleQueenside initializeGameState
   \<and> enPassantTargetRow (snd (fenToGameState (gameStateToFEN initializeGameState)))
       = enPassantTargetRow initializeGameState
   \<and> enPassantTargetCol (snd (fenToGameState (gameStateToFEN initializeGameState)))
       = enPassantTargetCol initializeGameState
   \<and> halfmoveClock (snd (fenToGameState (gameStateToFEN initializeGameState)))
       = halfmoveClock initializeGameState
   \<and> fullmoveNumber initializeGameState = 1
   \<and> fullmoveNumber (snd (fenToGameState (gameStateToFEN initializeGameState))) = 11"
  by code_simp

subsection \<open>C7: pin detection\<close>

text \<open>
  Claim C7: \<^verbatim>\<open>getPinInfo\<close> reports a pin exactly when the piece stands between its own king
  and an aligned enemy slider with nothing else between them, and then names that slider
  and the ray.
  The scan starts at the king and walks away from the piece, so it looks on the wrong side
  of the king. With the white king on e1, a white knight on e3 and a black rook on e8 (the
  e-file otherwise empty) the knight is pinned and \<^verbatim>\<open>getPinInfo\<close> reports no pin. With the
  king on e4, the knight behind it on e2 and the rook on e8, the knight is not between king
  and rook, and \<^verbatim>\<open>getPinInfo\<close> reports it pinned by the rook.
\<close>

theorem C7_getPinInfo_looks_behind_the_king:
  "board pinnedKnightPosition (7, 4) = WHITE_KING
   \<and> board pinnedKnightPosition (6, 4) = EMPTY
   \<and> board pinnedKnightPosition (5, 4) = WHITE_KNIGHT
   \<and> map (\<lambda>r. board pinnedKnightPosition (r, 4)) [1..4] = [EMPTY, EMPTY, EMPTY, EMPTY]
   \<and> board pinnedKnightPosition (0, 4) = BLACK_ROOK
   \<and> map_option isPinned (getPinInfo pinnedKnightPosition 5 4) = Some False
   \<and> board knightBehindKingPosition (6, 4) = WHITE_KNIGHT
   \<and> board knightBehindKingPosition (5, 4) = EMPTY
   \<and> board knightBehindKingPosition (4, 4) = WHITE_KING
   \<and> map (\<lambda>r. board knightBehindKingPosition (r, 4)) [1..3] = [EMPTY, EMPTY, EMPTY]
   \<and> board knightBehindKingPosition (0, 4) = BLACK_ROOK
   \<and> getPinInfo knightBehindKingPosition 6 4
       = Some \<lparr> isPinned = True, pinDirection = (-1, 0),
                 pinningPieceRow = 0, pinningPieceCol = 4 \<rparr>"
  by code_simp

subsection \<open>C10: the legality query leaves the state as it found it\<close>

text \<open>
  Claim C10: \<^verbatim>\<open>isValidMove\<close> returns, for every state and every four coordinates, with the
  game state equal to the state at the call; so do the self-check guard
  \<^verbatim>\<open>doesMovePutKingInCheck\<close>, which moves the piece on the board and moves it back, and the
  attack test \<^verbatim>\<open>isSquareAttacked\<close>, which sets the side-to-move flag and puts it back.
\<close>

theorem C10_isValidMove_restores_state:
  "(\<exists>valid. isValidMove state fromRow fromCol toRow toCol = Some (valid, state))
   \<and> (\<exists>check. doesMovePutKingInCheck state fromRow fromCol toRow toCol = Some (check, state))
   \<and> (\<exists>att. isSquareAttacked state row col byWhite = Some (att, state))
   \<and> (\<exists>pin. getPinInfo state fromRow fromCol = Some pin)"
  using isValidMove_frame[of state fromRow fromCol toRow toCol]
    doesMovePutKingInCheck_frame[of state fromRow fromCol toRow toCol]
    isSquareAttacked_frame[of state row col byWhite]
    getPinInfo_returns[of state fromRow fromCol]
  by (simp add: returnsTo_def returns_def)

theorem C10_isValidMove_restores_state_witness:
  "isValidMove initializeGameState 6 4 4 4 = Some (True, initializeGameState)
   \<and> isValidMove initializeGameState 6 4 3 4 = Some (False, initializeGameState)"
proof -
  have "map_option fst (isValidMove initializeGameState 6 4 4 4) = Some True"
    by code_simp
  moreover have "map_option fst (isValidMove initializeGameState 6 4 3 4) = Some False"
    by code_simp
  ultimately show ?thesis
    using C10_isValidMove_restores_state[of initializeGameState 6 4 4 4]
      C10_isValidMove_restores_state[of initializeGameState 6 4 3 4]
    by auto
qed

subsection \<open>C3: checkmate and stalemate\<close>

text \<open>
  Claim C3: \<^verbatim>\<open>isCheckmate\<close> is true exactly when the side to move is in check and no pair
  of squares is accepted by the legality query; \<^verbatim>\<open>isStalemate\<close> is true exactly when the
  side to move is not in check and no pair of squares is accepted. Both leave the state as
  it was. The position has at most one king of the side to move, as the data model
  requires (\<^verbatim>\<open>isCheckmate\<close> tries the moves of the first king it finds only).
\<close>

theorem C3_checkmate_stalemate:
  assumes "countPiece state (if isWhiteTurn state then WHITE_KING else BLACK_KING) \<le> 1"
  shows "isCheckmate state
           = Some (inCheck state (isWhiteTurn state)
                   \<and> \<not> (\<exists>fromRow fromCol toRow toCol.
                           accepted state fromRow fromCol toRow toCol), state)
         \<and> isStalemate state
           = Some (\<not> inCheck state (isWhiteTurn state)
                   \<and> \<not> (\<exists>fromRow fromCol toRow toCol.
                           accepted state fromRow fromCol toRow toCol), state)"
  using isCheckmate_eq[OF assms] isStalemate_eq[of state] by simp

theorem C3_checkmate_stalemate_witness:
  "countPiece initializeGameState
       (if isWhiteTurn initializeGameState then WHITE_KING else BLACK_KING) \<le> 1
   \<and> accepted initializeGameState 6 4 4 4
   \<and> isCheckmate initializeGameState = Some (False, initializeGameState)
   \<and> isStalemate initializeGameState = Some (False, initializeGameState)"
proof -
  have one: "countPiece initializeGameState
       (if isWhiteTurn initializeGameState then WHITE_KING else BLACK_KING) \<le> 1"
    by code_simp
  have "map_option fst (isValidMove initializeGameState 6 4 4 4) = Some True"
    by code_simp
  then have acc: "accepted initializeGameState 6 4 4 4"
    using isValidMove_accepted[of initializeGameState 6 4 4 4] by simp
  show ?thesis
    using C3_checkmate_stalemate[OF one] one acc by auto
qed

subsection \<open>C8: draws\<close>

text \<open>
  Claim C8: \<^verbatim>\<open>isDraw\<close> is true exactly when \<^verbatim>\<open>isStalemate\<close> is true, or
  \<^verbatim>\<open>isInsufficientMaterial\<close> is true, or the halfmove clock is at least 100; and
  \<^verbatim>\<open>isThreefoldRepetition\<close> is false on every state.
\<close>

theorem C8_isDraw:
  "isDraw state
     = Some (isStalemate state = Some (True, state) \<or> isInsufficientMaterial state
             \<or> halfmoveClock state \<ge> 100, state)
   \<and> isThreefoldRepetition state = False"
  by (simp add: isDraw_eq isThreefoldRepetition_def)

theorem C8_isDraw_witness:
  "isDraw (initializeGameState\<lparr>halfmoveClock := 100\<rparr>)
     = Some (True, initializeGameState\<lparr>halfmoveClock := 100\<rparr>)
   \<and> isThreefoldRepetition (initializeGameState\<lparr>halfmoveClock := 100\<rparr>) = False"
  using C8_isDraw[of "initializeGameState\<lparr>halfmoveClock := 100\<rparr>"] by simp

subsection \<open>C2: generated moves and the mover's king\<close>

text \<open>
  Claim C2: after any move that \<^verbatim>\<open>generateAllMoves\<close> emits is applied with \<^verbatim>\<open>makeMove\<close>,
  the mover's own king is not attacked.
  The self-check guard simulates a move by relocating the moving piece only, while
  \<^verbatim>\<open>makeMove\<close> also removes the pawn captured en passant. On the fifth rank with white king
  h5, white pawn e5, black pawn d5 (en-passant target d6) and black rook a5, White is not in
  check, the generator emits the capture e5xd6, and after \<^verbatim>\<open>makeMove\<close> the rank is open and
  the white king is attacked by the rook.
\<close>

theorem C2_en_passant_capture_exposes_king:
  "\<not> inCheck enPassantPinPosition True
   \<and> (\<exists>moveList. generateAllMoves enPassantPinPosition = Some (moveList, enPassantPinPosition)
         \<and> (3, 4, 2, 3) \<in> set (map fst moveList))
   \<and> (\<exists>state'. makeMove [] enPassantPinPosition 3 4 2 3 = Some (state', [])
         \<and> board state' (2, 3) = WHITE_PAWN \<and> board state' (3, 3) = EMPTY
         \<and> inCheck state' True)"
proof -
  have "map_option fst (isInCheck enPassantPinPosition True) = Some False"
    by code_simp
  then have before: "\<not> inCheck enPassantPinPosition True"
    by (simp add: isInCheck_inCheck)
  have "map_option fst (isValidMove enPassantPinPosition 3 4 2 3) = Some True"
    by code_simp
  then have acc: "accepted enPassantPinPosition 3 4 2 3"
    by (simp add: isValidMove_accepted)
  have own: "length (filter (\<lambda>f. (isWhiteTurn enPassantPinPosition
                                     \<and> isupper (board enPassantPinPosition f))
                                \<or> (\<not> isWhiteTurn enPassantPinPosition
                                     \<and> islower (board enPassantPinPosition f))) squares) = 2"
    by code_simp
  obtain moveList where gen:
    "generateAllMoves enPassantPinPosition = Some (moveList, enPassantPinPosition)"
    "length moveList \<le> 64 * length (filter (\<lambda>f. (isWhiteTurn enPassantPinPosition
                                     \<and> isupper (board enPassantPinPosition f))
                                \<or> (\<not> isWhiteTurn enPassantPinPosition
                                     \<and> islower (board enPassantPinPosition f))) squares)"
    "length moveList < 256 \<longrightarrow>
       (\<forall>fr fc tr tc. accepted enPassantPinPosition fr fc tr tc
          \<longrightarrow> (fr, fc, tr, tc) \<in> set (map fst moveList))"
    using generateAllMoves_spec[of enPassantPinPosition] by blast
  have "length moveList < 256"
    using gen(2) unfolding own by simp
  with gen(3) acc have emitted: "(3, 4, 2, 3) \<in> set (map fst moveList)"
    by blast
  have run: "map_option snd (makeMove [] enPassantPinPosition 3 4 2 3) = Some []"
    by code_simp
  then obtain state' where mk: "makeMove [] enPassantPinPosition 3 4 2 3 = Some (state', [])"
    by auto
  have "(case makeMove [] enPassantPinPosition 3 4 2 3 of
           None \<Rightarrow> None
         | Some (state, input) \<Rightarrow>
             Some (board state (2, 3), board state (3, 3), map_option fst (isInCheck state True)))
        = Some (WHITE_PAWN, EMPTY, Some True)"
    by code_simp
  then have after: "board state' (2, 3) = WHITE_PAWN" "board state' (3, 3) = EMPTY"
      "inCheck state' True"
    by (simp_all add: mk isInCheck_inCheck)
  show ?thesis
    using before gen(1) emitted mk after by blast
qed


subsection \<open>C9: the quiescence search terminates\<close>

text \<open>
  Claim C9: \<^verbatim>\<open>quiescence\<close> terminates on every position, because it recurses only after
  a capture and each capture leaves fewer pieces on the board.
  A move that the legality query accepts onto an occupied square leaves strictly fewer
  pieces once it is applied to the board; a call stack one deeper than the number of
  pieces on the board is therefore enough for \<^verbatim>\<open>quiescence\<close> to return (and it returns
  with the position it was given); and since a board holds at most 64 pieces, a stack of
  depth 65 is enough on every position.
\<close>

theorem C9_quiescence_terminates:
  "(accepted state fromRow fromCol toRow toCol \<and> board state (toRow, toCol) \<noteq> EMPTY
      \<longrightarrow> pieceCount (setSquare (setSquare state toRow toCol (board state (fromRow, fromCol)))
                         fromRow fromCol EMPTY) < pieceCount state)
   \<and> (pieceCount state < fuel
      \<longrightarrow> (\<exists>score cache'. quiescence fuel cache state alpha beta isMaximizingPlayer
                              = Some ((score, cache'), state)))
   \<and> (\<exists>score cache'. quiescence 65 cache state alpha beta isMaximizingPlayer
                        = Some ((score, cache'), state))"
proof -
  have bounded: "\<exists>score cache'. quiescence n cache state alpha beta isMaximizingPlayer
                                  = Some ((score, cache'), state)"
    if "pieceCount state < n" for n
    using quiescence_framed[of state n cache alpha beta isMaximizingPlayer] that
    by (cases "quiescence n cache state alpha beta isMaximizingPlayer")
       (auto simp: framed_def)
  have "pieceCount state < 65"
    using pieceCount_le[of state] by simp
  then show ?thesis
    using bounded accepted_capture[of state fromRow fromCol toRow toCol] by blast
qed

theorem C9_quiescence_terminates_witness:
  "accepted rookCapturePosition 7 0 0 0
   \<and> board rookCapturePosition (0, 0) = BLACK_ROOK
   \<and> pieceCount rookCapturePosition = 4
   \<and> pieceCount (setSquare (setSquare rookCapturePosition 0 0
                     (board rookCapturePosition (7, 0))) 7 0 EMPTY) < 4
   \<and> (\<exists>score cache'. quiescence 5 initialCache rookCapturePosition (-100000) 100000 True
                        = Some ((score, cache'), rookCapturePosition))"
proof -
  have "map_option fst (isValidMove rookCapturePosition 7 0 0 0) = Some True"
    by code_simp
  then have acc: "accepted rookCapturePosition 7 0 0 0"
    by (simp add: isValidMove_accepted)
  have target: "board rookCapturePosition (0, 0) = BLACK_ROOK"
    by code_simp
  have count: "pieceCount rookCapturePosition = 4"
    by code_simp
  show ?thesis
    using C9_quiescence_terminates[of rookCapturePosition 7 0 0 0 5 initialCache
        "-100000" 100000 True] acc target count
    by simp
qed

subsection \<open>C1: the search leaves the position as it found it\<close>

text \<open>
  Claim C1: when \<^verbatim>\<open>minimax\<close> or \<^verbatim>\<open>quiescence\<close> returns, the position is the one at entry,
  for every position, depth and window.
  Whatever the bound on the call stack, a call of either function that returns, returns
  with the game state it was given (the board, the side to move and every other field);
  and the calls do return: \<^verbatim>\<open>quiescence\<close> on a stack of depth 65, \<^verbatim>\<open>minimax\<close> for a depth
  \<open>depth \<ge> 0\<close> on a stack of depth \<open>depth + 66\<close>.
\<close>

theorem C1_search_restores_position:
  "(minimax fuel cache state depth alpha beta isMaximizingPlayer = Some ((score, cache'), state')
      \<longrightarrow> state' = state)
   \<and> (quiescence fuel cache state alpha beta isMaximizingPlayer = Some ((score, cache'), state')
      \<longrightarrow> state' = state)
   \<and> (0 \<le> depth \<and> nat depth + 65 < fuel
      \<longrightarrow> (\<exists>score cache'. minimax fuel cache state depth alpha beta isMaximizingPlayer
                              = Some ((score, cache'), state)))
   \<and> (64 < fuel
      \<longrightarrow> (\<exists>score cache'. quiescence fuel cache state alpha beta isMaximizingPlayer
                              = Some ((score, cache'), state)))"
proof -
  have m: "framed (0 \<le> depth \<and> nat depth + 65 < fuel) state
             (minimax fuel cache state depth alpha beta isMaximizingPlayer)"
    by (rule minimax_framed)
  have q: "framed (64 < fuel) state
             (quiescence fuel cache state alpha beta isMaximizingPlayer)"
    by (rule framed_weaken[OF quiescence_framed]) (use pieceCount_le[of state] in simp)
  show ?thesis
    using m q
    by (cases "minimax fuel cache state depth alpha beta isMaximizingPlayer";
        cases "quiescence fuel cache state alpha beta isMaximizingPlayer")
       (auto simp: framed_def)
qed

theorem C1_search_restores_position_witness:
  "(\<exists>score cache'. minimax 68 initialCache initializeGameState 2 (-100000) 100000 True
                      = Some ((score, cache'), initializeGameState))
   \<and> (\<exists>score cache'. quiescence 65 initialCache initializeGameState (-100000) 100000 True
                        = Some ((score, cache'), initializeGameState))"
  using C1_search_restores_position[of 68 initialCache initializeGameState 2
      "-100000" 100000 True]
    C1_search_restores_position[of 65 initialCache initializeGameState 2
      "-100000" 100000 True]
  by simp

subsection \<open>C5: castling on the king's side\<close>

text \<open>
  Claim C5: with White to move, both white castling rights intact, f1 = (7,5) and
  g1 = (7,6) empty, and e1 = (7,4), f1 and g1 not attacked by Black, the king move
  (7,4) to (7,6) is accepted, and \<^verbatim>\<open>makeMove\<close> also brings the rook from (7,7) to (7,5)
  and clears both white castling rights.
  Rights that are intact mean that the white king stands on e1 and the white rook on h1
  and that the two flags are set; the board holds one white king, as the data model
  requires.
\<close>

theorem C5_kingside_castling:
  assumes "isWhiteTurn state"
    and "canWhiteCastleKingside state" "canWhiteCastleQueenside state"
    and "board state (7, 4) = WHITE_KING" "board state (7, 7) = WHITE_ROOK"
    and "countPiece state WHITE_KING \<le> 1"
    and "board state (7, 5) = EMPTY" "board state (7, 6) = EMPTY"
    and "\<not> attacked state 7 4 False" "\<not> attacked state 7 5 False"
      "\<not> attacked state 7 6 False"
  shows "accepted state 7 4 7 6
     \<and> (\<exists>state'. makeMove input state 7 4 7 6 = Some (state', input)
           \<and> board state' (7, 6) = WHITE_KING \<and> board state' (7, 5) = WHITE_ROOK
           \<and> board state' (7, 4) = EMPTY \<and> board state' (7, 7) = EMPTY
           \<and> \<not> canWhiteCastleKingside state' \<and> \<not> canWhiteCastleQueenside state')"
  using castling_accepted[OF assms(1,2,4-11)] castling_makeMove[OF assms(4,5), of input]
  by simp

theorem C5_kingside_castling_witness:
  "accepted castlingPosition 7 4 7 6
   \<and> (\<exists>state'. makeMove [] castlingPosition 7 4 7 6 = Some (state', [])
         \<and> board state' (7, 6) = WHITE_KING \<and> board state' (7, 5) = WHITE_ROOK
         \<and> board state' (7, 4) = EMPTY \<and> board state' (7, 7) = EMPTY
         \<and> \<not> canWhiteCastleKingside state' \<and> \<not> canWhiteCastleQueenside state')"
proof -
  have flags: "isWhiteTurn castlingPosition" "canWhiteCastleKingside castlingPosition"
      "canWhiteCastleQueenside castlingPosition"
    by (simp_all add: castlingPosition_def positionOf_def)
  have pieces: "board castlingPosition (7, 4) = WHITE_KING"
      "board castlingPosition (7, 7) = WHITE_ROOK"
      "board castlingPosition (7, 5) = EMPTY" "board castlingPosition (7, 6) = EMPTY"
    by code_simp+
  have one: "countPiece castlingPosition WHITE_KING \<le> 1"
    by code_simp
  have "map_option fst (isSquareAttacked castlingPosition 7 4 False) = Some False"
    by code_simp
  then have e1: "\<not> attacked castlingPosition 7 4 False"
    by (simp add: isSquareAttacked_attacked)
  have "map_option fst (isSquareAttacked castlingPosition 7 5 False) = Some False"
    by code_simp
  then have f1: "\<not> attacked castlingPosition 7 5 False"
    by (simp add: isSquareAttacked_attacked)
  have "map_option fst (isSquareAttacked castlingPosition 7 6 False) = Some False"
    by code_simp
  then have g1: "\<not> attacked castlingPosition 7 6 False"
    by (simp add: isSquareAttacked_attacked)
  show ?thesis
    by (rule C5_kingside_castling[OF flags pieces(1,2) one pieces(3,4) e1 f1 g1])
qed
end
